theory Spec2Isabelle
  imports Main "HOL-Library.Sublist" "HOL-Library.Multiset"
begin

section \<open>The maintenance info bot: a shallow embedding of \<open>run\<close>\<close>

text \<open>
  The worker polls the RSS feed of a status page, filters the entries, records the key of
  every entry it has examined in one comma-joined value of a key-value store, and posts one
  note per remaining entry.

  Conventions of the model.
  \<^item> A JavaScript string is the list of the bytes of its UTF-8 encoding. Equality,
    concatenation, \<open>includes\<close>, and \<open>split\<close>/\<open>join\<close> on an ASCII separator give the same
    answers on that encoding as on well-formed UTF-16 text.
  \<^item> A \<open>number\<close> of a feed entry is an integral epoch-millisecond timestamp or \<open>NaN\<close>,
    which the feed parser gives for a date it cannot read. The clock is an integer.
  \<^item> Everything outside the script (HTTP, the RSS parser, the HTML parser, the clock, the
    notes API) is a field of the record \<open>World\<close>; a promise that rejects is the value
    \<open>None\<close>. The key-value namespace is a map that the run receives and returns.
  \<^item> Every effect of a run is listed, in order, in the \<open>trace\<close> of its result.
\<close>

subsection \<open>String primitives of the host language\<close>

text \<open>\<open>s.includes(sub)\<close>: \<open>sub\<close> occurs in \<open>s\<close> as a contiguous block.\<close>

fun includes_str :: "string \<Rightarrow> string \<Rightarrow> bool" where
  "includes_str [] sub = (sub = [])"
| "includes_str (c # cs) sub = (prefix sub (c # cs) \<or> includes_str cs sub)"

text \<open>
  \<open>s.split(sep)\<close> for a separator of one character: the result is never empty, and the
  empty string splits into one empty token.
\<close>

fun split_str :: "char \<Rightarrow> string \<Rightarrow> string list" where
  "split_str sep [] = [[]]"
| "split_str sep (c # cs) =
     (if c = sep then [] # split_str sep cs
      else (case split_str sep cs of
              [] \<Rightarrow> [[c]]
            | t # ts \<Rightarrow> (c # t) # ts))"

text \<open>\<open>xs.join(sep)\<close>.\<close>

fun join_str :: "string \<Rightarrow> string list \<Rightarrow> string" where
  "join_str sep [] = []"
| "join_str sep [x] = x"
| "join_str sep (x # y # ys) = x @ sep @ join_str sep (y # ys)"

text \<open>\<open>s.replace(pat, rep)\<close> with a string pattern: only the first occurrence is replaced.\<close>

fun replace_str :: "string \<Rightarrow> string \<Rightarrow> string \<Rightarrow> string" where
  "replace_str pat rep [] = (if pat = [] then rep else [])"
| "replace_str pat rep (c # cs) =
     (if prefix pat (c # cs) then rep @ drop (length pat) (c # cs)
      else c # replace_str pat rep cs)"

text \<open>
  The text a template literal gives an integral number: decimal digits, with a minus sign
  below zero. (Timestamps are far below \<open>10^21\<close>, where the host switches to exponents.)
\<close>

fun digits :: "nat \<Rightarrow> string" where
  "digits n =
     (if n < 10 then [''0123456789'' ! n]
      else digits (n div 10) @ [''0123456789'' ! (n mod 10)])"

declare digits.simps [simp del]

definition integerToString :: "int \<Rightarrow> string" where
  "integerToString i = (if i < 0 then CHR ''-'' # digits (nat (- i)) else digits (nat i))"

text \<open>
  The numbers a feed entry carries, with the host's conversion to text and its comparisons
  with an integer: every comparison with \<open>NaN\<close> is false.
\<close>

datatype number = Number int | NaN

fun numberToString :: "number \<Rightarrow> string" where
  "numberToString (Number i) = integerToString i"
| "numberToString NaN = ''NaN''"

fun numberLess :: "number \<Rightarrow> int \<Rightarrow> bool" where
  "numberLess (Number i) j = (i < j)"
| "numberLess NaN j = False"


subsection \<open>Data\<close>

text \<open>
  \<open>FeedEntry\<close> of \<open>types.d.ts\<close>. The fields typed \<open>undefined\<close> or \<open>any\<close> there
  (\<open>id\<close>, \<open>author\<close>, \<open>category\<close>, \<open>content\<close>, \<open>enclosures\<close>, \<open>media\<close>) are never read.
\<close>

record FeedEntry =
  title :: string
  description :: string
  link :: string
  published :: number
  created :: number

text \<open>
  The bindings of the worker that \<open>run\<close> reads. \<open>TEST_MODE\<close> and
  \<open>ALLOW_EXEC_VIA_HTTP\<close> are used as conditions only; they are modelled by their truthiness.
\<close>

record Env =
  SERVICE_HOST :: string
  STATUS_PAGE_HOST :: string
  PROCESSED_ENTRIES_KV_KEY :: string
  SERVICE_NAME :: string
  PLATFORM_NAME :: string
  MISSKEY_API_TOKEN :: string
  TEST_MODE :: bool
  ALLOW_EXEC_VIA_HTTP :: bool

definition SERVICE_ROOT :: "Env \<Rightarrow> string" where
  "SERVICE_ROOT env = SERVICE_HOST env @ ''/''"

definition STATUS_PAGE_DOCUMENT_ROOT :: "Env \<Rightarrow> string" where
  "STATUS_PAGE_DOCUMENT_ROOT env = STATUS_PAGE_HOST env @ ''/''"

text \<open>The namespace \<open>INFOBOT_KV\<close>: \<open>get\<close> is application, \<open>None\<close> is an absent key.\<close>

type_synonym kv = "string \<Rightarrow> string option"

text \<open>
  A parsed document, as far as the script looks at it: for a class name, the elements of
  that class in document order, each with its \<open>textContent\<close>.
\<close>

record element =
  textContent :: string

type_synonym dom = "string \<Rightarrow> element list"

text \<open>
  What a run meets outside the script. \<open>now i\<close> is the value of \<open>Date.now()\<close> while the
  \<open>i\<close>-th item of the feed is being filtered (the callback reads the clock afresh for
  every item). \<open>fetchDone i\<close> is the instant at which the page fetch of the \<open>i\<close>-th
  selected entry completes.
\<close>

record World =
  fetchHead :: "string \<Rightarrow> bool option"
  parse :: "string \<Rightarrow> FeedEntry list option"
  now :: "nat \<Rightarrow> int"
  fetchText :: "string \<Rightarrow> string option"
  fetchDone :: "nat \<Rightarrow> nat"
  parseFromString :: "string \<Rightarrow> dom"
  notesCreate :: "string \<Rightarrow> string option"

datatype action =
    Head string
  | ConsoleLog string
  | KvGet string
  | KvPut string string
  | KvDelete string
  | ParseFeed string
  | Fetch string
  | NotesCreate string

text \<open>
  What the promise of one entry resolves to: the message itself under \<open>TEST_MODE\<close>, the
  answer of the notes API otherwise.
\<close>

datatype result = Message string | Note string

text \<open>How the promise returned by \<open>run\<close> settles.\<close>

datatype outcome = Undefined | Results "result list" | Rejected

record RunResult =
  outcome :: outcome
  store :: kv
  trace :: "action list"

subsection \<open>Texts of the script\<close>

definition lbracket :: string where
  "lbracket = [CHR 0xE3, CHR 0x80, CHR 0x90]"

definition rbracket :: string where
  "rbracket = [CHR 0xE3, CHR 0x80, CHR 0x91]"

text \<open>The three category labels.\<close>

definition NOTICE :: string where
  "NOTICE = [CHR 0xE3, CHR 0x81, CHR 0x8A, CHR 0xE7, CHR 0x9F, CHR 0xA5, CHR 0xE3, CHR 0x82,
     CHR 0x89, CHR 0xE3, CHR 0x81, CHR 0x9B]"

definition INCIDENT :: string where
  "INCIDENT = [CHR 0xE9, CHR 0x9A, CHR 0x9C, CHR 0xE5, CHR 0xAE, CHR 0xB3, CHR 0xE6, CHR 0x83,
     CHR 0x85, CHR 0xE5, CHR 0xA0, CHR 0xB1]"

definition MAINTENANCE :: string where
  "MAINTENANCE = [CHR 0xE3, CHR 0x83, CHR 0xA1, CHR 0xE3, CHR 0x83, CHR 0xB3, CHR 0xE3, CHR 0x83,
     CHR 0x86, CHR 0xE3, CHR 0x83, CHR 0x8A, CHR 0xE3, CHR 0x83, CHR 0xB3, CHR 0xE3, CHR 0x82,
     CHR 0xB9, CHR 0xE6, CHR 0x83, CHR 0x85, CHR 0xE5, CHR 0xA0, CHR 0xB1]"

text \<open>The description used when the page has no prose element.\<close>

definition fallbackDescription :: string where
  "fallbackDescription = [CHR 0xE8, CHR 0xA9, CHR 0xB3, CHR 0xE7, CHR 0xB4, CHR 0xB0, CHR 0xE3,
     CHR 0x81, CHR 0xAF, CHR 0xE3, CHR 0x83, CHR 0xAA, CHR 0xE3, CHR 0x83, CHR 0xB3, CHR 0xE3,
     CHR 0x82, CHR 0xAF, CHR 0xE5, CHR 0x85, CHR 0x88, CHR 0xE3, CHR 0x82, CHR 0x92, CHR 0xE3,
     CHR 0x81, CHR 0x94, CHR 0xE7, CHR 0xA2, CHR 0xBA, CHR 0xE8, CHR 0xAA, CHR 0x8D, CHR 0xE3,
     CHR 0x81, CHR 0x8F, CHR 0xE3, CHR 0x81, CHR 0xA0, CHR 0xE3, CHR 0x81, CHR 0x95, CHR 0xE3,
     CHR 0x81, CHR 0x84, CHR 0xE3, CHR 0x80, CHR 0x82]"

text \<open>The tail of both log lines ("could not connect").\<close>

definition couldNotConnect :: string where
  "couldNotConnect = [CHR 0xE3, CHR 0x81, CHR 0xAB, CHR 0xE6, CHR 0x8E, CHR 0xA5, CHR 0xE7,
     CHR 0xB6, CHR 0x9A, CHR 0xE3, CHR 0x81, CHR 0xA7, CHR 0xE3, CHR 0x81, CHR 0x8D, CHR 0xE3,
     CHR 0x81, CHR 0xBE, CHR 0xE3, CHR 0x81, CHR 0x9B, CHR 0xE3, CHR 0x82, CHR 0x93, CHR 0xE3,
     CHR 0x81, CHR 0xA7, CHR 0xE3, CHR 0x81, CHR 0x97, CHR 0xE3, CHR 0x81, CHR 0x9F, CHR 0xE3,
     CHR 0x80, CHR 0x82]"

definition statusPageName :: string where
  "statusPageName = [CHR 0xE3, CHR 0x82, CHR 0xB9, CHR 0xE3, CHR 0x83, CHR 0x86, CHR 0xE3,
     CHR 0x83, CHR 0xBC, CHR 0xE3, CHR 0x82, CHR 0xBF, CHR 0xE3, CHR 0x82, CHR 0xB9, CHR 0xE3,
     CHR 0x83, CHR 0x9A, CHR 0xE3, CHR 0x83, CHR 0xBC, CHR 0xE3, CHR 0x82, CHR 0xB8]"

subsection \<open>The filter over the feed items\<close>

text \<open>\<open>entry.link.split('/').pop()\<close>; the split is never empty, so \<open>pop\<close> has a last token.\<close>

definition entryId :: "FeedEntry \<Rightarrow> string" where
  "entryId entry = last (split_str CHR ''/'' (link entry))"

definition entryUniqueKey :: "FeedEntry \<Rightarrow> string" where
  "entryUniqueKey entry = entryId entry @ ''-'' @ numberToString (published entry)"

text \<open>
  One call of the callback handed to \<open>filter\<close>. \<open>processedEntries\<close> and
  \<open>newProcessedEntries\<close> are one and the same array in the script, so one list stands
  for both: the membership test reads it, \<open>push\<close> appends to it. The call returns its
  verdict and the array as it leaves it; \<open>t\<close> is what \<open>Date.now()\<close> returns during the call.
\<close>

definition filterCallback :: "Env \<Rightarrow> int \<Rightarrow> string list \<Rightarrow> FeedEntry \<Rightarrow> bool \<times> string list" where
  "filterCallback env t processedEntries entry =
     (if link entry = STATUS_PAGE_DOCUMENT_ROOT env then (False, processedEntries)
      else if \<not> (includes_str (title entry) (PLATFORM_NAME env)
                 \<or> includes_str (title entry) (SERVICE_NAME env))
        then (False, processedEntries)
      else if \<not> TEST_MODE env then
        (if entryUniqueKey entry \<in> set processedEntries then (False, processedEntries)
         else if numberLess (published entry) (t - 60 * 60 * 1000)
           then (False, processedEntries @ [entryUniqueKey entry])
         else (True, processedEntries @ [entryUniqueKey entry]))
      else (True, processedEntries))"

text \<open>
  \<open>feedEntries.items.filter(callback)\<close>: the callback runs on the items in order, the
  \<open>i\<close>-th call at clock reading \<open>clock i\<close>; the items with a true verdict are kept. The
  second component is the array after the last call.
\<close>

fun feedEntriesToProcess ::
  "Env \<Rightarrow> (nat \<Rightarrow> int) \<Rightarrow> nat \<Rightarrow> string list \<Rightarrow> FeedEntry list \<Rightarrow> FeedEntry list \<times> string list" where
  "feedEntriesToProcess env clock i processedEntries [] = ([], processedEntries)"
| "feedEntriesToProcess env clock i processedEntries (entry # items) =
     (case filterCallback env (clock i) processedEntries entry of
        (keep, processedEntries') \<Rightarrow>
          (case feedEntriesToProcess env clock (Suc i) processedEntries' items of
             (kept, newProcessedEntries) \<Rightarrow>
               (if keep then entry # kept else kept, newProcessedEntries)))"

subsection \<open>The store of processed entries\<close>

text \<open>\<open>processedEntryList?.split(',') ?? []\<close>.\<close>

definition processedEntries :: "kv \<Rightarrow> string \<Rightarrow> string list" where
  "processedEntries kvs k = (case kvs k of None \<Rightarrow> [] | Some s \<Rightarrow> split_str CHR '','' s)"

text \<open>The write-back: \<open>put\<close> of the joined list, or \<open>delete\<close> when the list is empty.\<close>

definition saveProcessedEntries :: "string \<Rightarrow> string list \<Rightarrow> kv \<Rightarrow> kv \<times> action" where
  "saveProcessedEntries k newProcessedEntries kvs =
     (if length newProcessedEntries > 0
      then (kvs(k \<mapsto> join_str '','' newProcessedEntries),
            KvPut k (join_str '','' newProcessedEntries))
      else (kvs(k := None), KvDelete k))"

subsection \<open>Enrichment and message\<close>

text \<open>\<open>a[0] || b[0] || c[0]\<close> on element arrays: an element is truthy, a missing one is not.\<close>

definition entryTypeBox :: "dom \<Rightarrow> element option" where
  "entryTypeBox d =
     (case d ''text-statuspage-blue'' of e # _ \<Rightarrow> Some e
      | [] \<Rightarrow> (case d ''text-statuspage-yellow'' of e # _ \<Rightarrow> Some e
        | [] \<Rightarrow> (case d ''text-statuspage-red'' of e # _ \<Rightarrow> Some e | [] \<Rightarrow> None)))"

definition entryType :: "dom \<Rightarrow> string option" where
  "entryType d = map_option textContent (entryTypeBox d)"

text \<open>
  The label. \<open>!entryType\<close> holds for \<open>undefined\<close> and for the empty string; the
  \<open>switch\<close> has no default, so any other text leaves the variable \<open>undefined\<close> (\<open>None\<close>).
\<close>

definition entryTypeJp :: "dom \<Rightarrow> string option" where
  "entryTypeJp d =
     (case entryType d of
        None \<Rightarrow> Some NOTICE
      | Some t \<Rightarrow>
          if t = [] then Some NOTICE
          else if t = ''Downtime'' \<or> t = ''Degraded'' then Some INCIDENT
          else if t = ''Maintenance'' then Some MAINTENANCE
          else None)"

text \<open>\<open>dom.getElementsByClassName('prose-sm')[0]?.textContent || fallback\<close>.\<close>

definition pageDescription :: "dom \<Rightarrow> string" where
  "pageDescription d =
     (case d ''prose-sm'' of
        [] \<Rightarrow> fallbackDescription
      | e # _ \<Rightarrow> if textContent e = [] then fallbackDescription else textContent e)"

text \<open>A template literal prints an \<open>undefined\<close> value as the word \<open>undefined\<close>.\<close>

definition templateText :: "string option \<Rightarrow> string" where
  "templateText v = (case v of None \<Rightarrow> ''undefined'' | Some s \<Rightarrow> s)"

definition message :: "FeedEntry \<Rightarrow> dom \<Rightarrow> string" where
  "message entry d =
     lbracket @ templateText (entryTypeJp d) @ rbracket @ [CHR 0x0A] @ title entry
       @ [CHR 0x0A] @ pageDescription d @ [CHR 0x0A] @ link entry"

text \<open>The document of an entry: the page text, without its first doctype tag, parsed.\<close>

definition entryDom :: "World \<Rightarrow> string \<Rightarrow> dom" where
  "entryDom w originalHtml = parseFromString w (replace_str ''<!DOCTYPE html>'' [] originalHtml)"

subsection \<open>Delivery\<close>

text \<open>
  The asynchronous callback of one entry: the actions it performs after its page fetch was
  issued, and what its promise settles to (\<open>None\<close>: it rejects).
\<close>

definition deliver :: "Env \<Rightarrow> World \<Rightarrow> FeedEntry \<Rightarrow> action list \<times> result option" where
  "deliver env w entry =
     (case fetchText w (link entry) of
        None \<Rightarrow> ([], None)
      | Some originalHtml \<Rightarrow>
          if TEST_MODE env then ([], Some (Message (message entry (entryDom w originalHtml))))
          else ([NotesCreate (message entry (entryDom w originalHtml))],
                map_option Note (notesCreate w (message entry (entryDom w originalHtml)))))"

text \<open>\<open>Promise.all\<close>: the results in order, or a rejection when one promise rejects.\<close>

definition promiseAll :: "result option list \<Rightarrow> outcome" where
  "promiseAll ps = (if list_all (\<lambda>p. p \<noteq> None) ps then Results (map the ps) else Rejected)"

subsection \<open>The run\<close>

text \<open>
  Every callback of \<open>map\<close> issues its page fetch before any of them continues, and each
  continues when its own fetch completes: the callbacks resume in the order of the
  completion instants, those of one instant in the order of issue.
\<close>

definition completionOrder :: "World \<Rightarrow> FeedEntry list \<Rightarrow> FeedEntry list" where
  "completionOrder w kept =
     map snd (sort_key (\<lambda>(i, entry). fetchDone w i) (enumerate 0 kept))"

text \<open>
  The part of \<open>run\<close> after both probes. The page fetches come first in the trace, in feed
  order; the requests to the notes API follow in completion order. The results of
  \<open>Promise.all\<close> are in the order of the promises, which is feed order.
\<close>

definition afterProbes :: "Env \<Rightarrow> World \<Rightarrow> kv \<Rightarrow> action list \<Rightarrow> RunResult" where
  "afterProbes env w kvs probes =
     (case parse w (STATUS_PAGE_HOST env @ ''/feed'') of
        None \<Rightarrow>
          \<lparr>outcome = Rejected, store = kvs,
           trace = probes @ [KvGet (PROCESSED_ENTRIES_KV_KEY env),
                             ParseFeed (STATUS_PAGE_HOST env @ ''/feed'')]\<rparr>
      | Some items \<Rightarrow>
          (case feedEntriesToProcess env (now w) 0
                  (processedEntries kvs (PROCESSED_ENTRIES_KV_KEY env)) items of
             (kept, newProcessedEntries) \<Rightarrow>
               (case saveProcessedEntries (PROCESSED_ENTRIES_KV_KEY env) newProcessedEntries kvs of
                  (kvs', written) \<Rightarrow>
                    \<lparr>outcome = promiseAll (map (\<lambda>entry. snd (deliver env w entry)) kept),
                     store = kvs',
                     trace = probes @ [KvGet (PROCESSED_ENTRIES_KV_KEY env),
                                       ParseFeed (STATUS_PAGE_HOST env @ ''/feed''), written]
                             @ map (\<lambda>entry. Fetch (link entry)) kept
                             @ concat (map (\<lambda>entry. fst (deliver env w entry))
                                         (completionOrder w kept))\<rparr>)))"

definition run :: "Env \<Rightarrow> World \<Rightarrow> kv \<Rightarrow> RunResult" where
  "run env w kvs =
     (case fetchHead w (SERVICE_ROOT env) of
        None \<Rightarrow> \<lparr>outcome = Rejected, store = kvs, trace = [Head (SERVICE_ROOT env)]\<rparr>
      | Some ok \<Rightarrow>
          if \<not> ok
          then \<lparr>outcome = Undefined, store = kvs,
                trace = [Head (SERVICE_ROOT env), ConsoleLog (SERVICE_NAME env @ couldNotConnect)]\<rparr>
          else
            (case fetchHead w (STATUS_PAGE_HOST env) of
               None \<Rightarrow>
                 \<lparr>outcome = Rejected, store = kvs,
                  trace = [Head (SERVICE_ROOT env), Head (STATUS_PAGE_HOST env)]\<rparr>
             | Some ok' \<Rightarrow>
                 if \<not> ok'
                 then \<lparr>outcome = Undefined, store = kvs,
                       trace = [Head (SERVICE_ROOT env), Head (STATUS_PAGE_HOST env),
                                ConsoleLog (statusPageName @ couldNotConnect)]\<rparr>
                 else afterProbes env w kvs
                        [Head (SERVICE_ROOT env), Head (STATUS_PAGE_HOST env)]))"

subsection \<open>Notions used to state the properties\<close>

text \<open>An entry that passes the first two guards of the callback (link and title).\<close>

definition relevant :: "Env \<Rightarrow> FeedEntry \<Rightarrow> bool" where
  "relevant env entry \<longleftrightarrow>
     link entry \<noteq> STATUS_PAGE_DOCUMENT_ROOT env
     \<and> (includes_str (title entry) (PLATFORM_NAME env)
        \<or> includes_str (title entry) (SERVICE_NAME env))"

text \<open>The value of \<open>feedEntriesToProcess\<close> and of the written array in a run on a feed.\<close>

definition selected :: "Env \<Rightarrow> World \<Rightarrow> kv \<Rightarrow> FeedEntry list \<Rightarrow> FeedEntry list" where
  "selected env w kvs items =
     fst (feedEntriesToProcess env (now w) 0
            (processedEntries kvs (PROCESSED_ENTRIES_KV_KEY env)) items)"

definition newProcessedEntries :: "Env \<Rightarrow> World \<Rightarrow> kv \<Rightarrow> FeedEntry list \<Rightarrow> string list" where
  "newProcessedEntries env w kvs items =
     snd (feedEntriesToProcess env (now w) 0
            (processedEntries kvs (PROCESSED_ENTRIES_KV_KEY env)) items)"

text \<open>The texts handed to the notes API in a trace, in order.\<close>

fun posted :: "action list \<Rightarrow> string list" where
  "posted [] = []"
| "posted (NotesCreate text # acts) = text # posted acts"
| "posted (_ # acts) = posted acts"

text \<open>The message of an entry, if its page can be fetched.\<close>

definition pageMessage :: "World \<Rightarrow> FeedEntry \<Rightarrow> string option" where
  "pageMessage w entry =
     map_option (\<lambda>originalHtml. message entry (entryDom w originalHtml))
       (fetchText w (link entry))"

text \<open>A run gets past both probes and receives the feed \<open>items\<close>.\<close>

definition readsFeed :: "Env \<Rightarrow> World \<Rightarrow> FeedEntry list \<Rightarrow> bool" where
  "readsFeed env w items \<longleftrightarrow>
     fetchHead w (SERVICE_ROOT env) = Some True
     \<and> fetchHead w (STATUS_PAGE_HOST env) = Some True
     \<and> parse w (STATUS_PAGE_HOST env @ ''/feed'') = Some items"

text \<open>Successive runs, each on the store its predecessor left.\<close>

fun runs :: "Env \<Rightarrow> World list \<Rightarrow> kv \<Rightarrow> RunResult list" where
  "runs env [] kvs = []"
| "runs env (w # ws) kvs = run env w kvs # runs env ws (store (run env w kvs))"




subsection \<open>Concrete inputs\<close>

text \<open>A configuration, a few documents and feed entries, and a small world.\<close>

definition exEnv :: "bool \<Rightarrow> Env" where
  "exEnv test =
     \<lparr>SERVICE_HOST = ''https://mi.example'', STATUS_PAGE_HOST = ''https://st.example'',
      PROCESSED_ENTRIES_KV_KEY = ''pe'', SERVICE_NAME = ''Acme'', PLATFORM_NAME = ''Misskey'',
      MISSKEY_API_TOKEN = ''token'', TEST_MODE = test, ALLOW_EXEC_VIA_HTTP = False\<rparr>"

text \<open>A document without marker or prose element, and one whose blue marker has a text.\<close>

definition noMarker :: dom where
  "noMarker = (\<lambda>cls. [])"

definition blueMarker :: "string \<Rightarrow> dom" where
  "blueMarker t = (\<lambda>cls. if cls = ''text-statuspage-blue'' then [\<lparr>textContent = t\<rparr>] else [])"

text \<open>
  Both hosts answer the probe with the given \<open>ok\<close> flags, the feed has the given items,
  the clock is \<open>clock\<close>, every page parses to \<open>page\<close>, and the notes API accepts every text.
\<close>

definition exWorld :: "bool \<Rightarrow> bool \<Rightarrow> FeedEntry list \<Rightarrow> (nat \<Rightarrow> int) \<Rightarrow> dom \<Rightarrow> World" where
  "exWorld ok ok' items clock page =
     \<lparr>fetchHead = (\<lambda>url. if url = ''https://mi.example/'' then Some ok else Some ok'),
      parse = (\<lambda>url. Some items),
      now = clock,
      fetchText = (\<lambda>url. Some ''<!DOCTYPE html><p>x</p>''),
      fetchDone = (\<lambda>i. 0),
      parseFromString = (\<lambda>html. page),
      notesCreate = (\<lambda>text. Some ''created'')\<rparr>"

definition exClock :: "nat \<Rightarrow> int" where
  "exClock i = 10000000"

definition exEntry :: "string \<Rightarrow> string \<Rightarrow> int \<Rightarrow> FeedEntry" where
  "exEntry t l p =
     \<lparr>title = t, description = ''d'', link = l, published = Number p, created = Number p\<rparr>"

text \<open>
  A recent incident, a second entry with the same last path segment and timestamp (hence
  the same key), an entry two and a half hours old, the entry of the status page root, and
  an entry whose last path segment has a comma.
\<close>

definition entryA :: FeedEntry where
  "entryA = exEntry ''Acme down'' ''https://st.example/incidents/42'' 9000000"

definition entryB :: FeedEntry where
  "entryB = exEntry ''Acme fixed'' ''https://st.example/maintenance/42'' 9000000"

definition entryOld :: FeedEntry where
  "entryOld = exEntry ''Acme old'' ''https://st.example/incidents/7'' 1000000"

definition entryRoot :: FeedEntry where
  "entryRoot = exEntry ''Acme status'' ''https://st.example/'' 9000000"

definition entryComma :: FeedEntry where
  "entryComma = exEntry ''Acme down'' ''https://st.example/incidents/a,b'' 9000000"

text \<open>
  A second recent incident, an entry of another service with the key of the first one, and
  an entry whose date could not be read.
\<close>

definition entryC :: FeedEntry where
  "entryC = exEntry ''Misskey update'' ''https://st.example/incidents/43'' 9500000"

definition entryIrr :: FeedEntry where
  "entryIrr = exEntry ''Other service'' ''https://st.example/other/42'' 9000000"

definition entryNaN :: FeedEntry where
  "entryNaN = (exEntry ''Acme undated'' ''https://st.example/incidents/44'' 0)
     \<lparr>published := NaN\<rparr>"

section \<open>Facts about the string primitives\<close>

lemma includes_str_iff: "includes_str s sub \<longleftrightarrow> (\<exists>ps ss. s = ps @ sub @ ss)"
proof (induction s)
  case Nil
  show ?case by auto
next
  case (Cons c cs)
  show ?case
  proof
    assume "includes_str (c # cs) sub"
    then consider "prefix sub (c # cs)" | "includes_str cs sub" by auto
    then show "\<exists>ps ss. c # cs = ps @ sub @ ss"
    proof cases
      case 1
      then obtain ss where "c # cs = sub @ ss" by (auto simp: prefix_def)
      then have "c # cs = [] @ sub @ ss" by simp
      then show ?thesis by blast
    next
      case 2
      with Cons obtain ps ss where "cs = ps @ sub @ ss" by blast
      then have "c # cs = (c # ps) @ sub @ ss" by simp
      then show ?thesis by blast
    qed
  next
    assume "\<exists>ps ss. c # cs = ps @ sub @ ss"
    then obtain ps ss where e: "c # cs = ps @ sub @ ss" by blast
    show "includes_str (c # cs) sub"
    proof (cases ps)
      case Nil
      with e have "prefix sub (c # cs)" by (simp add: prefix_def)
      then show ?thesis by simp
    next
      case (Cons p ps')
      with e have "cs = ps' @ sub @ ss" by simp
      with Cons.IH have "includes_str cs sub" by blast
      then show ?thesis by simp
    qed
  qed
qed

lemma split_str_not_Nil: "split_str sep s \<noteq> []"
  by (induction s) (auto split: list.splits)

lemma join_str_Cons: "xs \<noteq> [] \<Longrightarrow> join_str sep (x # xs) = x @ sep @ join_str sep xs"
  by (cases xs) auto

text \<open>Joining what was split gives the string back, whatever it contains.\<close>

lemma join_split: "join_str [sep] (split_str sep s) = s"
proof (induction s)
  case Nil
  show ?case by simp
next
  case (Cons c cs)
  obtain t ts where ts: "split_str sep cs = t # ts"
    using split_str_not_Nil [of sep cs] by (cases "split_str sep cs") auto
  with Cons show ?case by (cases ts) auto
qed

lemma split_str_no_sep: "sep \<notin> set s \<Longrightarrow> split_str sep s = [s]"
  by (induction s) auto

lemma split_str_append:
  "sep \<notin> set x \<Longrightarrow> split_str sep (x @ sep # s) = x # split_str sep s"
  by (induction x) auto

text \<open>Splitting what was joined gives the list back when no element contains the separator.\<close>

lemma split_join:
  "xs \<noteq> [] \<Longrightarrow> \<forall>x\<in>set xs. sep \<notin> set x \<Longrightarrow> split_str sep (join_str [sep] xs) = xs"
proof (induction xs)
  case Nil
  then show ?case by simp
next
  case (Cons x xs)
  show ?case
  proof (cases "xs = []")
    case True
    with Cons.prems show ?thesis by (simp add: split_str_no_sep)
  next
    case False
    with Cons show ?thesis by (simp add: join_str_Cons split_str_append)
  qed
qed

lemma split_str_tokens: "x \<in> set (split_str sep s) \<Longrightarrow> sep \<notin> set x"
proof (induction s arbitrary: x)
  case Nil
  then show ?case by simp
next
  case (Cons c cs)
  obtain t ts where ts: "split_str sep cs = t # ts"
    using split_str_not_Nil [of sep cs] by (cases "split_str sep cs") auto
  from Cons ts show ?case by (auto split: if_splits)
qed

lemma join_str_Nil: "join_str [sep] xs = [] \<Longrightarrow> xs = [] \<or> xs = [[]]"
proof (cases xs)
  case Nil
  then show ?thesis by simp
next
  case (Cons x ys)
  assume "join_str [sep] xs = []"
  with Cons show ?thesis by (cases ys) auto
qed

section \<open>Facts about the filter\<close>

lemma filterCallback_irrelevant:
  "\<not> relevant env entry \<Longrightarrow> filterCallback env t pe entry = (False, pe)"
  by (auto simp: relevant_def filterCallback_def)

lemma filterCallback_test:
  "TEST_MODE env \<Longrightarrow> relevant env entry \<Longrightarrow> filterCallback env t pe entry = (True, pe)"
  by (auto simp: relevant_def filterCallback_def)

lemma filterCallback_seen:
  "\<not> TEST_MODE env \<Longrightarrow> entryUniqueKey entry \<in> set pe \<Longrightarrow>
   filterCallback env t pe entry = (False, pe)"
  by (auto simp: filterCallback_def)

lemma filterCallback_new:
  "\<not> TEST_MODE env \<Longrightarrow> relevant env entry \<Longrightarrow> entryUniqueKey entry \<notin> set pe \<Longrightarrow>
   filterCallback env t pe entry =
     (\<not> numberLess (published entry) (t - 3600000), pe @ [entryUniqueKey entry])"
  by (auto simp: relevant_def filterCallback_def)

lemma filterCallback_cases:
  "snd (filterCallback env t pe e) = pe
   \<or> (\<not> TEST_MODE env \<and> relevant env e \<and> entryUniqueKey e \<notin> set pe
      \<and> snd (filterCallback env t pe e) = pe @ [entryUniqueKey e])"
  by (auto simp: filterCallback_def relevant_def)

lemma fst_filterCallback:
  "\<not> TEST_MODE env \<Longrightarrow>
   fst (filterCallback env t pe e) \<longleftrightarrow>
     relevant env e \<and> entryUniqueKey e \<notin> set pe \<and> \<not> numberLess (published e) (t - 3600000)"
  by (auto simp: filterCallback_def relevant_def)

lemma set_snd_filterCallback:
  "\<not> TEST_MODE env \<Longrightarrow>
   set (snd (filterCallback env t pe e)) =
     set pe \<union> (if relevant env e then {entryUniqueKey e} else {})"
  by (auto simp: filterCallback_def relevant_def)

lemma feedEntriesToProcess_Cons:
  "feedEntriesToProcess env clock i pe (e # es) =
     (if fst (filterCallback env (clock i) pe e)
      then e # fst (feedEntriesToProcess env clock (Suc i) (snd (filterCallback env (clock i) pe e)) es)
      else fst (feedEntriesToProcess env clock (Suc i) (snd (filterCallback env (clock i) pe e)) es),
      snd (feedEntriesToProcess env clock (Suc i) (snd (filterCallback env (clock i) pe e)) es))"
  by (simp add: split_beta)

lemma feedEntriesToProcess_append:
  "feedEntriesToProcess env clock i pe (xs @ ys) =
     (fst (feedEntriesToProcess env clock i pe xs)
        @ fst (feedEntriesToProcess env clock (i + length xs)
                 (snd (feedEntriesToProcess env clock i pe xs)) ys),
      snd (feedEntriesToProcess env clock (i + length xs)
             (snd (feedEntriesToProcess env clock i pe xs)) ys))"
  by (induction xs arbitrary: i pe) (simp_all add: split_beta)

lemma feedEntriesToProcess_test:
  "TEST_MODE env \<Longrightarrow>
   feedEntriesToProcess env clock i pe items = (filter (relevant env) items, pe)"
proof (induction items arbitrary: i)
  case Nil
  show ?case by simp
next
  case (Cons e es)
  then show ?case
    by (cases "relevant env e") (simp_all add: filterCallback_test filterCallback_irrelevant)
qed

lemma feedEntriesToProcess_all_seen:
  "\<not> TEST_MODE env \<Longrightarrow> \<forall>e\<in>set items. relevant env e \<longrightarrow> entryUniqueKey e \<in> set pe \<Longrightarrow>
   feedEntriesToProcess env clock i pe items = ([], pe)"
proof (induction items arbitrary: i)
  case Nil
  show ?case by simp
next
  case (Cons e es)
  then show ?case
    by (cases "relevant env e") (simp_all add: filterCallback_seen filterCallback_irrelevant)
qed

lemma set_snd_feedEntriesToProcess:
  "\<not> TEST_MODE env \<Longrightarrow>
   set (snd (feedEntriesToProcess env clock i pe items)) =
     set pe \<union> entryUniqueKey ` {e \<in> set items. relevant env e}"
proof (induction items arbitrary: i pe)
  case Nil
  show ?case by simp
next
  case (Cons e es)
  note IH = Cons.IH [OF Cons.prems]
  show ?case
  proof (cases "relevant env e")
    case False
    then show ?thesis
      by (auto simp: feedEntriesToProcess_Cons filterCallback_irrelevant IH
               simp del: feedEntriesToProcess.simps)
  next
    case True
    show ?thesis
    proof (cases "entryUniqueKey e \<in> set pe")
      case True
      with Cons.prems \<open>relevant env e\<close> show ?thesis
        by (auto simp: feedEntriesToProcess_Cons filterCallback_seen IH
                 simp del: feedEntriesToProcess.simps)
    next
      case False
      with Cons.prems \<open>relevant env e\<close> show ?thesis
        by (auto simp: feedEntriesToProcess_Cons filterCallback_new IH
                 simp del: feedEntriesToProcess.simps)
    qed
  qed
qed

lemma distinct_snd_feedEntriesToProcess:
  "distinct pe \<Longrightarrow> distinct (snd (feedEntriesToProcess env clock i pe items))"
proof (induction items arbitrary: i pe)
  case Nil
  then show ?case by simp
next
  case (Cons e es)
  from filterCallback_cases [of env "clock i" pe e] Cons.prems
  have "distinct (snd (filterCallback env (clock i) pe e))" by auto
  from Cons.IH [OF this] show ?case
    by (simp add: feedEntriesToProcess_Cons del: feedEntriesToProcess.simps)
qed

text \<open>The array only grows, by keys that are new and pairwise different.\<close>

lemma snd_feedEntriesToProcess_added:
  "\<exists>added. snd (feedEntriesToProcess env clock i pe items) = pe @ added
     \<and> distinct added \<and> set added \<inter> set pe = {}
     \<and> set added \<subseteq> entryUniqueKey ` {e \<in> set items. relevant env e}"
proof (induction items arbitrary: i pe)
  case Nil
  show ?case by simp
next
  case (Cons e es)
  let ?pe1 = "snd (filterCallback env (clock i) pe e)"
  from Cons.IH [of "Suc i" ?pe1] obtain added where
    a: "snd (feedEntriesToProcess env clock (Suc i) ?pe1 es) = ?pe1 @ added"
       "distinct added" "set added \<inter> set ?pe1 = {}"
       "set added \<subseteq> entryUniqueKey ` {e \<in> set es. relevant env e}"
    by blast
  from filterCallback_cases [of env "clock i" pe e] show ?case
  proof
    assume "?pe1 = pe"
    with a show ?thesis
      by (intro exI [of _ added])
         (auto simp: feedEntriesToProcess_Cons simp del: feedEntriesToProcess.simps)
  next
    assume b: "\<not> TEST_MODE env \<and> relevant env e \<and> entryUniqueKey e \<notin> set pe
      \<and> ?pe1 = pe @ [entryUniqueKey e]"
    with a show ?thesis
      by (intro exI [of _ "entryUniqueKey e # added"])
         (auto simp: feedEntriesToProcess_Cons simp del: feedEntriesToProcess.simps)
  qed
qed

lemma selected_relevant:
  "e \<in> set (fst (feedEntriesToProcess env clock i pe items)) \<Longrightarrow> relevant env e"
proof (induction items arbitrary: i pe)
  case Nil
  then show ?case by simp
next
  case (Cons x xs)
  show ?case
  proof (cases "relevant env x")
    case True
    with Cons show ?thesis
      by (auto simp: feedEntriesToProcess_Cons simp del: feedEntriesToProcess.simps
               split: if_splits)
  next
    case False
    with Cons show ?thesis
      by (auto simp: feedEntriesToProcess_Cons filterCallback_irrelevant
               simp del: feedEntriesToProcess.simps)
  qed
qed

lemma upt_0_Suc_map: "[0..<Suc n] = 0 # map Suc [0..<n]"
  by (simp add: upt_conv_Cons map_Suc_upt del: upt_Suc)

text \<open>
  The filter keeps exactly the items on which the callback returns true, each call on the
  array its predecessors left.
\<close>

lemma fst_feedEntriesToProcess:
  "fst (feedEntriesToProcess env clock i pe items) =
     map (nth items)
       (filter (\<lambda>n. fst (filterCallback env (clock (i + n))
                        (snd (feedEntriesToProcess env clock i pe (take n items))) (items ! n)))
          [0..<length items])"
proof (induction items arbitrary: i pe)
  case Nil
  show ?case by simp
next
  case (Cons e es)
  let ?pe1 = "snd (filterCallback env (clock i) pe e)"
  have rest: "map (nth (e # es))
          (filter (\<lambda>n. fst (filterCallback env (clock (i + n))
                        (snd (feedEntriesToProcess env clock i pe (take n (e # es))))
                        ((e # es) ! n)))
             (map Suc [0..<length es])) =
        fst (feedEntriesToProcess env clock (Suc i) ?pe1 es)"
    by (simp add: Cons.IH [of "Suc i" ?pe1] filter_map comp_def feedEntriesToProcess_Cons
          del: feedEntriesToProcess.simps)
  show ?case
    unfolding length_Cons upt_0_Suc_map
    by (simp add: feedEntriesToProcess_Cons rest del: feedEntriesToProcess.simps(2))
qed

section \<open>Facts about the store and the run\<close>

lemma entryUniqueKey_not_Nil: "entryUniqueKey e \<noteq> []"
  by (simp add: entryUniqueKey_def)

lemma processedEntries_tokens:
  "x \<in> set (processedEntries kvs k) \<Longrightarrow> CHR '','' \<notin> set x"
  by (auto simp: processedEntries_def split: option.splits dest: split_str_tokens)

lemma processedEntries_empty_token:
  "processedEntries kvs k = [[]] \<Longrightarrow> kvs k = Some []"
proof -
  assume a: "processedEntries kvs k = [[]]"
  then obtain s where s: "kvs k = Some s" "split_str CHR '','' s = [[]]"
    by (auto simp: processedEntries_def split: option.splits)
  from join_split [of "CHR '',''" s] s(2) have "s = []" by simp
  with s show ?thesis by simp
qed

lemma store_saveProcessedEntries:
  "fst (saveProcessedEntries k xs kvs) k = (if xs = [] then None else Some (join_str '','' xs))"
  by (simp add: saveProcessedEntries_def)

lemma processedEntries_saveProcessedEntries:
  "\<forall>x\<in>set xs. CHR '','' \<notin> set x \<Longrightarrow>
   processedEntries (fst (saveProcessedEntries k xs kvs)) k = xs"
  by (simp add: processedEntries_def store_saveProcessedEntries split_join)

text \<open>Writing back the list that was read leaves the namespace as it was.\<close>

lemma saveProcessedEntries_unchanged:
  "fst (saveProcessedEntries k (processedEntries kvs k) kvs) = kvs"
  by (auto simp: saveProcessedEntries_def processedEntries_def join_split split_str_not_Nil
           split: option.splits)

lemma newProcessedEntries_added:
  "\<exists>added. newProcessedEntries env w kvs items =
       processedEntries kvs (PROCESSED_ENTRIES_KV_KEY env) @ added
     \<and> distinct added
     \<and> set added \<inter> set (processedEntries kvs (PROCESSED_ENTRIES_KV_KEY env)) = {}
     \<and> set added \<subseteq> entryUniqueKey ` {e \<in> set items. relevant env e}"
  unfolding newProcessedEntries_def by (rule snd_feedEntriesToProcess_added)


lemma set_fst_feedEntriesToProcess:
  "set (fst (feedEntriesToProcess env clock i pe items)) \<subseteq> set items"
  by (auto simp: fst_feedEntriesToProcess)

lemma selected_key_new:
  "\<not> TEST_MODE env \<Longrightarrow> e \<in> set (fst (feedEntriesToProcess env clock i pe items)) \<Longrightarrow>
   entryUniqueKey e \<notin> set pe"
proof (induction items arbitrary: i pe)
  case Nil
  then show ?case by simp
next
  case (Cons x xs)
  let ?pe1 = "snd (filterCallback env (clock i) pe x)"
  have sub: "set pe \<subseteq> set ?pe1"
    using set_snd_filterCallback [OF Cons.prems(1), of "clock i" pe x] by auto
  from Cons.prems(2) consider
    (head) "e = x" "fst (filterCallback env (clock i) pe x)"
    | (tail) "e \<in> set (fst (feedEntriesToProcess env clock (Suc i) ?pe1 xs))"
    by (auto simp: feedEntriesToProcess_Cons simp del: feedEntriesToProcess.simps
             split: if_splits)
  then show ?case
  proof cases
    case head
    with Cons.prems(1) show ?thesis by (simp add: fst_filterCallback)
  next
    case tail
    from Cons.IH [OF Cons.prems(1) tail] sub show ?thesis by auto
  qed
qed

lemma selected_key_pushed:
  assumes "\<not> TEST_MODE env" and "e \<in> set (fst (feedEntriesToProcess env clock i pe items))"
  shows "entryUniqueKey e \<in> set (snd (feedEntriesToProcess env clock i pe items))"
proof -
  from assms(2) have "relevant env e" by (rule selected_relevant)
  moreover from assms(2) set_fst_feedEntriesToProcess [of env clock i pe items]
  have "e \<in> set items" by auto
  ultimately show ?thesis
    using assms(1) by (simp add: set_snd_feedEntriesToProcess)
qed




text \<open>A run that gets past both probes and receives a feed, in one piece.\<close>

lemma run_readsFeed:
  "readsFeed env w items \<Longrightarrow>
   run env w kvs =
     \<lparr>outcome = promiseAll (map (\<lambda>entry. snd (deliver env w entry)) (selected env w kvs items)),
      store = fst (saveProcessedEntries (PROCESSED_ENTRIES_KV_KEY env)
                     (newProcessedEntries env w kvs items) kvs),
      trace = [Head (SERVICE_ROOT env), Head (STATUS_PAGE_HOST env),
               KvGet (PROCESSED_ENTRIES_KV_KEY env),
               ParseFeed (STATUS_PAGE_HOST env @ ''/feed''),
               snd (saveProcessedEntries (PROCESSED_ENTRIES_KV_KEY env)
                      (newProcessedEntries env w kvs items) kvs)]
              @ map (\<lambda>entry. Fetch (link entry)) (selected env w kvs items)
              @ concat (map (\<lambda>entry. fst (deliver env w entry))
                          (completionOrder w (selected env w kvs items)))\<rparr>"
  by (simp add: readsFeed_def run_def afterProbes_def selected_def newProcessedEntries_def
        split_beta)

text \<open>Any other run leaves the store alone, fetches no page and creates no note.\<close>

lemma run_no_feed:
  "(\<exists>items. readsFeed env w items)
   \<or> (store (run env w kvs) = kvs
      \<and> (\<forall>a\<in>set (trace (run env w kvs)). \<forall>u. a \<noteq> Fetch u \<and> a \<noteq> NotesCreate u))"
  by (auto simp: readsFeed_def run_def afterProbes_def split: option.splits)

lemma posted_append: "posted (xs @ ys) = posted xs @ posted ys"
  by (induction xs rule: posted.induct) auto

lemma posted_Fetch: "posted (map (\<lambda>entry. Fetch (f entry)) xs) = []"
  by (induction xs) auto

lemma posted_saveProcessedEntries:
  "posted (snd (saveProcessedEntries k xs kvs) # acts) = posted acts"
  by (simp add: saveProcessedEntries_def)

lemma fst_deliver:
  "fst (deliver env w entry) =
     (if TEST_MODE env then []
      else (case pageMessage w entry of None \<Rightarrow> [] | Some m \<Rightarrow> [NotesCreate m]))"
  by (simp add: deliver_def pageMessage_def split: option.splits)

lemma Fetch_trace:
  "Fetch u \<in> set (trace (run env w kvs)) \<Longrightarrow>
   \<exists>items e. readsFeed env w items \<and> e \<in> set (selected env w kvs items) \<and> u = link e"
proof -
  assume f: "Fetch u \<in> set (trace (run env w kvs))"
  with run_no_feed [of env w kvs] obtain items where rf: "readsFeed env w items" by blast
  from f have "Fetch u \<in> set (map (\<lambda>entry. Fetch (link entry)) (selected env w kvs items))"
    by (auto simp: run_readsFeed [OF rf] fst_deliver saveProcessedEntries_def
             split: if_splits option.splits)
  with rf show ?thesis by auto
qed

lemma snd_deliver_test:
  "TEST_MODE env \<Longrightarrow> snd (deliver env w entry) = map_option Message (pageMessage w entry)"
  by (simp add: deliver_def pageMessage_def split: option.splits)


lemma posted_deliver:
  "posted (concat (map (\<lambda>entry. fst (deliver env w entry)) kept)) =
     (if TEST_MODE env then [] else List.map_filter (pageMessage w) kept)"
  by (induction kept) (simp_all add: fst_deliver posted_append split: option.splits)

lemma posted_run:
  "readsFeed env w items \<Longrightarrow>
   posted (trace (run env w kvs)) =
     (if TEST_MODE env then []
      else List.map_filter (pageMessage w) (completionOrder w (selected env w kvs items)))"
  by (simp add: run_readsFeed posted_append posted_Fetch posted_deliver
        posted_saveProcessedEntries)

text \<open>The completion order is a rearrangement of the selected entries.\<close>

lemma mset_completionOrder: "mset (completionOrder w kept) = mset kept"
proof -
  have "mset (completionOrder w kept) = image_mset snd (mset (enumerate 0 kept))"
    by (simp add: completionOrder_def)
  also have "\<dots> = mset (map snd (enumerate 0 kept))"
    by (simp only: mset_map)
  also have "map snd (enumerate 0 kept) = kept"
    by (rule map_snd_enumerate)
  finally show ?thesis .
qed

lemma completionOrder_Nil: "completionOrder w [] = []"
  by (simp add: completionOrder_def)

lemma mset_map_filter:
  "mset xs = mset ys \<Longrightarrow> mset (List.map_filter f xs) = mset (List.map_filter f ys)"
proof -
  assume e: "mset xs = mset ys"
  have "mset (List.map_filter f zs) =
      image_mset (the \<circ> f) (filter_mset (\<lambda>x. f x \<noteq> None) (mset zs))" for zs
    by (simp add: List.map_filter_def)
  with e show ?thesis by simp
qed

text \<open>The notes created in a run, up to their order.\<close>

lemma mset_posted_run:
  "readsFeed env w items \<Longrightarrow>
   mset (posted (trace (run env w kvs))) =
     (if TEST_MODE env then {#}
      else mset (List.map_filter (pageMessage w) (selected env w kvs items)))"
  by (simp add: posted_run mset_map_filter [OF mset_completionOrder])

lemma Fetch_run:
  assumes "readsFeed env w items" and "Fetch u \<in> set (trace (run env w kvs))"
  shows "\<exists>e\<in>set (selected env w kvs items). u = link e"
proof -
  from assms(2) have "Fetch u \<in> set (map (\<lambda>entry. Fetch (link entry)) (selected env w kvs items))"
    by (auto simp: run_readsFeed [OF assms(1)] fst_deliver saveProcessedEntries_def
             split: if_splits option.splits)
  then show ?thesis by auto
qed

lemma completionOrder_single: "completionOrder w [e] = [e]"
  by (simp add: completionOrder_def)


lemma promiseAll_Results_map:
  "promiseAll ps = Results rs \<Longrightarrow> map Some rs = ps"
  by (auto simp: promiseAll_def list_all_iff map_idI split: if_splits)


lemma store_run_not_empty_string:
  assumes "kvs (PROCESSED_ENTRIES_KV_KEY env) \<noteq> Some []"
  shows "store (run env w kvs) (PROCESSED_ENTRIES_KV_KEY env) \<noteq> Some []"
proof
  assume e: "store (run env w kvs) (PROCESSED_ENTRIES_KV_KEY env) = Some []"
  from run_no_feed [of env w kvs] assms e obtain items where rf: "readsFeed env w items"
    by auto
  let ?new = "newProcessedEntries env w kvs items"
  from e have "?new \<noteq> []" "join_str '','' ?new = []"
    by (auto simp: run_readsFeed [OF rf] store_saveProcessedEntries split: if_splits)
  with join_str_Nil [of "CHR '',''" ?new] have new: "?new = [[]]" by simp
  from newProcessedEntries_added [of env w kvs items] obtain added where
    a: "?new = processedEntries kvs (PROCESSED_ENTRIES_KV_KEY env) @ added"
       "set added \<subseteq> entryUniqueKey ` {e \<in> set items. relevant env e}"
    by blast
  have "[] \<notin> set added"
  proof
    assume "[] \<in> set added"
    with a(2) obtain e where "[] = entryUniqueKey e" by auto
    with entryUniqueKey_not_Nil [of e] show False by simp
  qed
  with new a(1) have "processedEntries kvs (PROCESSED_ENTRIES_KV_KEY env) = [[]]"
    by (cases "processedEntries kvs (PROCESSED_ENTRIES_KV_KEY env)") (auto simp: Cons_eq_append_conv)
  from processedEntries_empty_token [OF this] assms show False by simp
qed

lemma runs_not_empty_string:
  "kvs (PROCESSED_ENTRIES_KV_KEY env) \<noteq> Some [] \<Longrightarrow>
   \<forall>r\<in>set (runs env ws kvs). store r (PROCESSED_ENTRIES_KV_KEY env) \<noteq> Some []"
proof (induction ws arbitrary: kvs)
  case Nil
  show ?case by simp
next
  case (Cons w ws)
  from store_run_not_empty_string [where kvs = kvs and env = env and w = w] Cons.prems
  have "store (run env w kvs) (PROCESSED_ENTRIES_KV_KEY env) \<noteq> Some []" .
  with Cons.IH [where kvs = "store (run env w kvs)"] show ?case by simp
qed

lemma count_list_distinct: "distinct xs \<Longrightarrow> x \<in> set xs \<Longrightarrow> count_list xs x = 1"
  by (induction xs) auto

lemma processedEntries_run:
  assumes "\<not> TEST_MODE env" and "readsFeed env w items"
    and "\<forall>e\<in>set items. relevant env e \<longrightarrow> CHR '','' \<notin> set (entryUniqueKey e)"
  shows "processedEntries (store (run env w kvs)) (PROCESSED_ENTRIES_KV_KEY env) =
           newProcessedEntries env w kvs items"
proof -
  from newProcessedEntries_added [of env w kvs items] obtain added where
    a: "newProcessedEntries env w kvs items =
          processedEntries kvs (PROCESSED_ENTRIES_KV_KEY env) @ added"
       "set added \<subseteq> entryUniqueKey ` {e \<in> set items. relevant env e}"
    by blast
  have "\<forall>x\<in>set (newProcessedEntries env w kvs items). CHR '','' \<notin> set x"
    using a assms(3) processedEntries_tokens by auto
  then show ?thesis
    by (simp add: run_readsFeed [OF assms(2)] processedEntries_saveProcessedEntries)
qed

lemma run_all_seen:
  assumes "\<not> TEST_MODE env" and "readsFeed env w items"
    and "\<forall>e\<in>set items. relevant env e \<longrightarrow>
           entryUniqueKey e \<in> set (processedEntries kvs (PROCESSED_ENTRIES_KV_KEY env))"
  shows "store (run env w kvs) = kvs \<and> posted (trace (run env w kvs)) = []
         \<and> selected env w kvs items = []"
proof -
  have sel: "selected env w kvs items = []"
    and new: "newProcessedEntries env w kvs items =
                processedEntries kvs (PROCESSED_ENTRIES_KV_KEY env)"
    using assms(1,3)
    by (simp_all add: selected_def newProcessedEntries_def feedEntriesToProcess_all_seen)
  have "store (run env w kvs) = kvs"
    by (simp add: run_readsFeed [OF assms(2)] new saveProcessedEntries_unchanged)
  moreover have "posted (trace (run env w kvs)) = []"
    by (simp add: posted_run [OF assms(2)] sel completionOrder_Nil)
  ultimately show ?thesis using sel by simp
qed

lemma runs_all_seen:
  assumes "\<not> TEST_MODE env"
    and "\<forall>e\<in>set items. relevant env e \<longrightarrow>
           entryUniqueKey e \<in> set (processedEntries kvs (PROCESSED_ENTRIES_KV_KEY env))"
  shows "\<forall>w\<in>set ws. readsFeed env w items \<Longrightarrow>
         \<forall>r\<in>set (runs env ws kvs). store r = kvs \<and> posted (trace r) = []"
proof (induction ws)
  case Nil
  show ?case by simp
next
  case (Cons w ws)
  from Cons.prems have "readsFeed env w items" by simp
  from run_all_seen [OF assms(1) this assms(2)]
  have "store (run env w kvs) = kvs" "posted (trace (run env w kvs)) = []" by simp_all
  with Cons show ?case by simp
qed

lemma entryTypeJp_absent:
  "d ''text-statuspage-blue'' = [] \<Longrightarrow> d ''text-statuspage-yellow'' = [] \<Longrightarrow>
   d ''text-statuspage-red'' = [] \<Longrightarrow> entryTypeJp d = Some NOTICE"
  by (simp add: entryTypeJp_def entryType_def entryTypeBox_def)

lemma entryTypeJp_marker:
  "entryType d = Some t \<Longrightarrow>
   entryTypeJp d =
     (if t = [] then Some NOTICE
      else if t = ''Downtime'' \<or> t = ''Degraded'' then Some INCIDENT
      else if t = ''Maintenance'' then Some MAINTENANCE
      else None)"
  by (simp add: entryTypeJp_def)

section \<open>Runs on the concrete inputs\<close>

lemmas ex_defs = exEnv_def exWorld_def exEntry_def exClock_def entryA_def entryB_def
  entryOld_def entryRoot_def entryComma_def entryC_def entryIrr_def entryNaN_def
  SERVICE_ROOT_def STATUS_PAGE_DOCUMENT_ROOT_def

lemmas run_defs = run_def afterProbes_def readsFeed_def processedEntries_def
  saveProcessedEntries_def filterCallback_def entryUniqueKey_def entryId_def integerToString_def
  digits.simps deliver_def promiseAll_def entryDom_def selected_def newProcessedEntries_def
  pageMessage_def relevant_def completionOrder_def

lemma env_ex: "PROCESSED_ENTRIES_KV_KEY (exEnv t) = ''pe''" "TEST_MODE (exEnv t) = t"
  by (simp_all add: exEnv_def)

lemma keys_ex:
  "entryUniqueKey entryA = ''42-9000000''" "entryUniqueKey entryB = ''42-9000000''"
  "entryUniqueKey entryOld = ''7-1000000''" "entryUniqueKey entryRoot = ''-9000000''"
  "entryUniqueKey entryComma = ''a,b-9000000''" "entryUniqueKey entryC = ''43-9500000''"
  "entryUniqueKey entryIrr = ''42-9000000''" "entryUniqueKey entryNaN = ''44-NaN''"
  by (simp_all add: ex_defs entryUniqueKey_def entryId_def integerToString_def digits.simps)

lemma relevant_ex:
  "relevant (exEnv t) entryA" "relevant (exEnv t) entryB" "relevant (exEnv t) entryOld"
  "\<not> relevant (exEnv t) entryRoot" "relevant (exEnv t) entryComma"
  "relevant (exEnv t) entryC" "\<not> relevant (exEnv t) entryIrr" "relevant (exEnv t) entryNaN"
  by (simp_all add: ex_defs relevant_def)

lemma readsFeed_ex: "readsFeed (exEnv t) (exWorld True True items clock page) items"
  by (simp add: ex_defs readsFeed_def)

lemma run_A:
  "run (exEnv False) (exWorld True True [entryA] exClock noMarker) (\<lambda>k. None) =
   \<lparr>outcome = Results [Note ''created''],
    store = [''pe'' \<mapsto> ''42-9000000''],
    trace = [Head ''https://mi.example/'', Head ''https://st.example'', KvGet ''pe'',
             ParseFeed ''https://st.example/feed'', KvPut ''pe'' ''42-9000000'',
             Fetch ''https://st.example/incidents/42'',
             NotesCreate (message entryA noMarker)]\<rparr>"
  by (simp add: ex_defs run_defs)


lemma run_A_test:
  "run (exEnv True) (exWorld True True [entryA] exClock noMarker) (\<lambda>k. None) =
   \<lparr>outcome = Results [Message (message entryA noMarker)],
    store = (\<lambda>k. None),
    trace = [Head ''https://mi.example/'', Head ''https://st.example'', KvGet ''pe'',
             ParseFeed ''https://st.example/feed'', KvDelete ''pe'',
             Fetch ''https://st.example/incidents/42'']\<rparr>"
  by (simp add: ex_defs run_defs)


lemma run_empty:
  "run (exEnv False) (exWorld True True [] exClock noMarker) (\<lambda>k. None) =
   \<lparr>outcome = Results [], store = (\<lambda>k. None),
    trace = [Head ''https://mi.example/'', Head ''https://st.example'', KvGet ''pe'',
             ParseFeed ''https://st.example/feed'', KvDelete ''pe'']\<rparr>"
  by (simp add: ex_defs run_defs)

lemma run_A_dup:
  "run (exEnv False) (exWorld True True [entryA] exClock noMarker)
     [''pe'' \<mapsto> ''42-9000000,42-9000000''] =
   \<lparr>outcome = Results [],
    store = [''pe'' \<mapsto> ''42-9000000,42-9000000''],
    trace = [Head ''https://mi.example/'', Head ''https://st.example'', KvGet ''pe'',
             ParseFeed ''https://st.example/feed'', KvPut ''pe'' ''42-9000000,42-9000000'']\<rparr>"
  by (simp add: ex_defs run_defs)

lemma run_Comma_1:
  "run (exEnv False) (exWorld True True [entryComma] exClock noMarker) (\<lambda>k. None) =
   \<lparr>outcome = Results [Note ''created''],
    store = [''pe'' \<mapsto> ''a,b-9000000''],
    trace = [Head ''https://mi.example/'', Head ''https://st.example'', KvGet ''pe'',
             ParseFeed ''https://st.example/feed'', KvPut ''pe'' ''a,b-9000000'',
             Fetch ''https://st.example/incidents/a,b'',
             NotesCreate (message entryComma noMarker)]\<rparr>"
  by (simp add: ex_defs run_defs)

lemma run_Comma_2:
  "run (exEnv False) (exWorld True True [entryComma] exClock noMarker) [''pe'' \<mapsto> ''a,b-9000000''] =
   \<lparr>outcome = Results [Note ''created''],
    store = [''pe'' \<mapsto> ''a,b-9000000,a,b-9000000''],
    trace = [Head ''https://mi.example/'', Head ''https://st.example'', KvGet ''pe'',
             ParseFeed ''https://st.example/feed'', KvPut ''pe'' ''a,b-9000000,a,b-9000000'',
             Fetch ''https://st.example/incidents/a,b'',
             NotesCreate (message entryComma noMarker)]\<rparr>"
  by (simp add: ex_defs run_defs)


section \<open>Which entries are notified\<close>





section \<open>Repeated runs over an unchanged feed\<close>

text \<open>
  C2, as the code has it. Let \<open>TEST_MODE\<close> be off, let the key of no relevant entry of the
  feed contain a comma, and let the list read from the store at the start have no
  duplicates. Then after each of any number of successive runs that receive this feed
  (whatever their clocks and pages), the key of every relevant entry occurs exactly once in
  the stored list; and every run after the first leaves the store as the first run left it
  and creates no note.
\<close>

theorem repeated_runs:
  assumes "\<not> TEST_MODE env"
    and "\<forall>w\<in>set (w # ws). readsFeed env w items"
    and "\<forall>e\<in>set items. relevant env e \<longrightarrow> CHR '','' \<notin> set (entryUniqueKey e)"
    and "distinct (processedEntries kvs (PROCESSED_ENTRIES_KV_KEY env))"
  shows "(\<forall>r\<in>set (runs env (w # ws) kvs). \<forall>e\<in>set items. relevant env e \<longrightarrow>
            count_list (processedEntries (store r) (PROCESSED_ENTRIES_KV_KEY env))
              (entryUniqueKey e) = 1)
         \<and> (\<forall>r\<in>set (runs env ws (store (run env w kvs))).
               store r = store (run env w kvs) \<and> posted (trace r) = [])"
proof -
  let ?k = "PROCESSED_ENTRIES_KV_KEY env"
  let ?s = "store (run env w kvs)"
  from assms(2) have rf: "readsFeed env w items" and rfs: "\<forall>w\<in>set ws. readsFeed env w items"
    by simp_all
  have read: "processedEntries ?s ?k = newProcessedEntries env w kvs items"
    using assms(1) rf assms(3) by (rule processedEntries_run)
  have dist: "distinct (processedEntries ?s ?k)"
    unfolding read newProcessedEntries_def
    using assms(4) by (rule distinct_snd_feedEntriesToProcess)
  have mem: "\<forall>e\<in>set items. relevant env e \<longrightarrow> entryUniqueKey e \<in> set (processedEntries ?s ?k)"
    unfolding read newProcessedEntries_def
    using assms(1) by (simp add: set_snd_feedEntriesToProcess)
  have once: "\<forall>e\<in>set items. relevant env e \<longrightarrow>
      count_list (processedEntries ?s ?k) (entryUniqueKey e) = 1"
    using dist mem by (simp add: count_list_distinct)
  have later: "\<forall>r\<in>set (runs env ws ?s). store r = ?s \<and> posted (trace r) = []"
    using assms(1) mem rfs by (rule runs_all_seen)
  from once later show ?thesis by simp
qed

theorem repeated_runs_witness:
  "\<not> TEST_MODE (exEnv False)
   \<and> readsFeed (exEnv False) (exWorld True True [entryA, entryOld, entryRoot] exClock noMarker)
        [entryA, entryOld, entryRoot]
   \<and> readsFeed (exEnv False)
        (exWorld True True [entryA, entryOld, entryRoot] (\<lambda>i. 20000000) noMarker)
        [entryA, entryOld, entryRoot]
   \<and> relevant (exEnv False) entryA \<and> CHR '','' \<notin> set (entryUniqueKey entryA)
   \<and> relevant (exEnv False) entryOld \<and> CHR '','' \<notin> set (entryUniqueKey entryOld)
   \<and> \<not> relevant (exEnv False) entryRoot
   \<and> distinct (processedEntries (\<lambda>k. None) (PROCESSED_ENTRIES_KV_KEY (exEnv False)))
   \<and> map (\<lambda>r. count_list (processedEntries (store r) (PROCESSED_ENTRIES_KV_KEY (exEnv False)))
              (entryUniqueKey entryA))
        (runs (exEnv False)
           [exWorld True True [entryA, entryOld, entryRoot] exClock noMarker,
            exWorld True True [entryA, entryOld, entryRoot] exClock noMarker,
            exWorld True True [entryA, entryOld, entryRoot] (\<lambda>i. 20000000) noMarker]
           (\<lambda>k. None)) = [1, 1, 1]
   \<and> map (\<lambda>r. count_list (processedEntries (store r) (PROCESSED_ENTRIES_KV_KEY (exEnv False)))
              (entryUniqueKey entryOld))
        (runs (exEnv False)
           [exWorld True True [entryA, entryOld, entryRoot] exClock noMarker,
            exWorld True True [entryA, entryOld, entryRoot] exClock noMarker,
            exWorld True True [entryA, entryOld, entryRoot] (\<lambda>i. 20000000) noMarker]
           (\<lambda>k. None)) = [1, 1, 1]
   \<and> map (\<lambda>r. posted (trace r))
        (runs (exEnv False)
           [exWorld True True [entryA, entryOld, entryRoot] exClock noMarker,
            exWorld True True [entryA, entryOld, entryRoot] (\<lambda>i. 20000000) noMarker]
           (store (run (exEnv False)
              (exWorld True True [entryA, entryOld, entryRoot] exClock noMarker)
              (\<lambda>k. None)))) = [[], []]"
proof -
  let ?w = "exWorld True True [entryA, entryOld, entryRoot] exClock noMarker"
  let ?w' = "exWorld True True [entryA, entryOld, entryRoot] (\<lambda>i. 20000000) noMarker"
  let ?items = "[entryA, entryOld, entryRoot]"
  let ?k = "PROCESSED_ENTRIES_KV_KEY (exEnv False)"
  let ?r1 = "run (exEnv False) ?w (\<lambda>k. None)"
  let ?r2 = "run (exEnv False) ?w (store ?r1)"
  let ?r3 = "run (exEnv False) ?w' (store ?r2)"
  have h1: "\<not> TEST_MODE (exEnv False)" by (simp add: exEnv_def)
  have rf: "readsFeed (exEnv False) ?w ?items" "readsFeed (exEnv False) ?w' ?items"
    by (rule readsFeed_ex)+
  then have h2: "\<forall>w\<in>set (?w # [?w, ?w']). readsFeed (exEnv False) w ?items"
    by simp
  have rel: "relevant (exEnv False) entryA" "relevant (exEnv False) entryOld"
    "\<not> relevant (exEnv False) entryRoot"
    by (rule relevant_ex)+
  have com: "CHR '','' \<notin> set (entryUniqueKey entryA)" "CHR '','' \<notin> set (entryUniqueKey entryOld)"
    by (simp_all add: keys_ex)
  from rel com
  have h3: "\<forall>e\<in>set ?items. relevant (exEnv False) e \<longrightarrow> CHR '','' \<notin> set (entryUniqueKey e)"
    by simp
  have h4: "distinct (processedEntries (\<lambda>k. None) ?k)"
    by (simp add: processedEntries_def)
  have rs: "runs (exEnv False) (?w # [?w, ?w']) (\<lambda>k. None) = [?r1, ?r2, ?r3]"
    "runs (exEnv False) [?w, ?w'] (store ?r1) = [?r2, ?r3]"
    by simp_all
  from repeated_runs [OF h1 h2 h3 h4]
  have c1: "\<forall>r\<in>set [?r1, ?r2, ?r3]. \<forall>e\<in>set ?items. relevant (exEnv False) e \<longrightarrow>
              count_list (processedEntries (store r) ?k) (entryUniqueKey e) = 1"
    and c2: "\<forall>r\<in>set [?r2, ?r3]. store r = store ?r1 \<and> posted (trace r) = []"
    unfolding rs by blast+
  have in3: "?r1 \<in> set [?r1, ?r2, ?r3]" "?r2 \<in> set [?r1, ?r2, ?r3]" "?r3 \<in> set [?r1, ?r2, ?r3]"
    and in2: "?r2 \<in> set [?r2, ?r3]" "?r3 \<in> set [?r2, ?r3]"
    and inA: "entryA \<in> set ?items" and inO: "entryOld \<in> set ?items"
    by simp_all
  from c1 in3 inA rel(1) have a:
    "count_list (processedEntries (store ?r1) ?k) (entryUniqueKey entryA) = 1"
    "count_list (processedEntries (store ?r2) ?k) (entryUniqueKey entryA) = 1"
    "count_list (processedEntries (store ?r3) ?k) (entryUniqueKey entryA) = 1"
    by blast+
  from c1 in3 inO rel(2) have b:
    "count_list (processedEntries (store ?r1) ?k) (entryUniqueKey entryOld) = 1"
    "count_list (processedEntries (store ?r2) ?k) (entryUniqueKey entryOld) = 1"
    "count_list (processedEntries (store ?r3) ?k) (entryUniqueKey entryOld) = 1"
    by blast+
  from c2 in2 have p: "posted (trace ?r2) = []" "posted (trace ?r3) = []"
    by blast+
  have
    "map (\<lambda>r. count_list (processedEntries (store r) ?k) (entryUniqueKey entryA))
       (runs (exEnv False) [?w, ?w, ?w'] (\<lambda>k. None)) = [1, 1, 1]"
    "map (\<lambda>r. count_list (processedEntries (store r) ?k) (entryUniqueKey entryOld))
       (runs (exEnv False) [?w, ?w, ?w'] (\<lambda>k. None)) = [1, 1, 1]"
    "map (\<lambda>r. posted (trace r)) (runs (exEnv False) [?w, ?w'] (store ?r1)) = [[], []]"
    unfolding rs by (simp_all only: list.map a b p)
  with h1 rf rel com h4 show ?thesis by blast
qed

text \<open>
  Each of the three conditions is needed. An entry whose last path segment has a comma is
  stored as two tokens, so the second run does not find its key, notifies it again and
  stores the tokens twice. Under \<open>TEST_MODE\<close> the key is never stored. A key that is
  already twice in the stored value stays twice.
\<close>

theorem repeated_runs_counterexample:
  "relevant (exEnv False) entryComma
   \<and> map (\<lambda>r. posted (trace r))
        (runs (exEnv False) [exWorld True True [entryComma] exClock noMarker,
                             exWorld True True [entryComma] exClock noMarker] (\<lambda>k. None))
       = [[message entryComma noMarker], [message entryComma noMarker]]
   \<and> map (\<lambda>r. processedEntries (store r) ''pe'')
        (runs (exEnv False) [exWorld True True [entryComma] exClock noMarker,
                             exWorld True True [entryComma] exClock noMarker] (\<lambda>k. None))
       = [[''a'', ''b-9000000''], [''a'', ''b-9000000'', ''a'', ''b-9000000'']]
   \<and> relevant (exEnv True) entryA
   \<and> count_list (processedEntries
        (store (run (exEnv True) (exWorld True True [entryA] exClock noMarker) (\<lambda>k. None))) ''pe'')
        (entryUniqueKey entryA) = 0
   \<and> relevant (exEnv False) entryA
   \<and> count_list (processedEntries
        (store (run (exEnv False) (exWorld True True [entryA] exClock noMarker)
                  [''pe'' \<mapsto> ''42-9000000,42-9000000''])) ''pe'')
        (entryUniqueKey entryA) = 2"
  by (simp add: relevant_ex keys_ex run_Comma_1 run_Comma_2 run_A_test run_A_dup
        processedEntries_def)

section \<open>The stored value after a run\<close>

text \<open>
  C3. After a run that receives the feed, the storage key holds the comma-joined list of
  processed entries when that list is not empty, and is absent when it is empty. The stored
  value is never the empty string: starting from a namespace in which the key is absent,
  after each of any number of runs, in whatever worlds, the stored value is not the empty
  string. (Every key that is pushed contains a hyphen, so a joined list is empty only for
  the list of one empty token, which can only have been read from a stored empty string.)
\<close>

theorem store_after_run:
  "(readsFeed env w items \<longrightarrow>
      store (run env w kvs) (PROCESSED_ENTRIES_KV_KEY env) =
        (if newProcessedEntries env w kvs items = [] then None
         else Some (join_str '','' (newProcessedEntries env w kvs items))))
   \<and> (kvs0 (PROCESSED_ENTRIES_KV_KEY env) = None \<longrightarrow>
        (\<forall>r\<in>set (runs env ws kvs0). store r (PROCESSED_ENTRIES_KV_KEY env) \<noteq> Some []))"
  using runs_not_empty_string [of kvs0 env ws]
  by (simp add: run_readsFeed store_saveProcessedEntries)

theorem store_after_run_witness:
  "readsFeed (exEnv False) (exWorld True True [entryA] exClock noMarker) [entryA]
   \<and> (\<lambda>k. None) (PROCESSED_ENTRIES_KV_KEY (exEnv False)) = (None :: string option)
   \<and> newProcessedEntries (exEnv False) (exWorld True True [entryA] exClock noMarker) (\<lambda>k. None)
        [entryA] = [''42-9000000'']
   \<and> store (run (exEnv False) (exWorld True True [entryA] exClock noMarker) (\<lambda>k. None))
        (PROCESSED_ENTRIES_KV_KEY (exEnv False)) = Some ''42-9000000''
   \<and> map (\<lambda>r. store r ''pe'')
        (runs (exEnv False) [exWorld True True [] exClock noMarker,
                             exWorld True True [entryA] exClock noMarker] (\<lambda>k. None))
       = [None, Some ''42-9000000'']
   \<and> store (run (exEnv False) (exWorld True True [] exClock noMarker) (\<lambda>k. None))
        (PROCESSED_ENTRIES_KV_KEY (exEnv False)) \<noteq> Some []
   \<and> store (run (exEnv False) (exWorld True True [entryA] exClock noMarker)
        (store (run (exEnv False) (exWorld True True [] exClock noMarker) (\<lambda>k. None))))
        (PROCESSED_ENTRIES_KV_KEY (exEnv False)) \<noteq> Some []"
proof -
  let ?w = "exWorld True True [entryA] exClock noMarker"
  let ?v = "exWorld True True [] exClock noMarker"
  let ?k = "PROCESSED_ENTRIES_KV_KEY (exEnv False)"
  let ?r1 = "run (exEnv False) ?v (\<lambda>k. None)"
  let ?r2 = "run (exEnv False) ?w (store ?r1)"
  have h1: "readsFeed (exEnv False) ?w [entryA]" by (rule readsFeed_ex)
  have h2: "(\<lambda>k. None) ?k = (None :: string option)" by simp
  have n: "newProcessedEntries (exEnv False) ?w (\<lambda>k. None) [entryA] = [''42-9000000'']"
    by (simp add: newProcessedEntries_def processedEntries_def filterCallback_new relevant_ex
          keys_ex env_ex)
  note t = store_after_run [of "exEnv False" ?w "[entryA]" "\<lambda>k. None" "\<lambda>k. None" "[?v, ?w]"]
  from t h1 n have s: "store (run (exEnv False) ?w (\<lambda>k. None)) ?k = Some ''42-9000000''"
    by simp
  have rs: "runs (exEnv False) [?v, ?w] (\<lambda>k. None) = [?r1, ?r2]" by simp
  from t h2 have "\<forall>r\<in>set [?r1, ?r2]. store r ?k \<noteq> Some []"
    unfolding rs by blast
  then have ne: "store ?r1 ?k \<noteq> Some []" "store ?r2 ?k \<noteq> Some []"
    by simp_all
  have m: "map (\<lambda>r. store r ''pe'') (runs (exEnv False) [?v, ?w] (\<lambda>k. None))
      = [None, Some ''42-9000000'']"
    by (simp add: run_empty run_A)
  from h1 h2 n s m ne show ?thesis by blast
qed

section \<open>The label of a message\<close>

text \<open>
  C4. The message is the four-line template, and the label is \<open>NOTICE\<close> without a marker
  element, \<open>INCIDENT\<close> for the marker texts \<open>Downtime\<close> and \<open>Degraded\<close>, and
  \<open>MAINTENANCE\<close> for \<open>Maintenance\<close> (see \<open>entryTypeJp_absent\<close> and
  \<open>entryTypeJp_marker\<close>). The label is not always one of the three: the \<open>switch\<close> has no
  default, so for a page whose first marker element has any other text, here
  \<open>Operational\<close>, the variable stays \<open>undefined\<close> and the note that is created starts
  with the word \<open>undefined\<close> between the brackets.
\<close>

theorem label_undefined:
  "entryType (blueMarker ''Operational'') = Some ''Operational''
   \<and> entryTypeJp (blueMarker ''Operational'') = None
   \<and> message entryA (blueMarker ''Operational'') =
        lbracket @ ''undefined'' @ rbracket @ [CHR 0x0A] @ title entryA @ [CHR 0x0A]
          @ fallbackDescription @ [CHR 0x0A] @ link entryA
   \<and> ''undefined'' \<noteq> NOTICE \<and> ''undefined'' \<noteq> INCIDENT \<and> ''undefined'' \<noteq> MAINTENANCE
   \<and> posted (trace (run (exEnv False)
        (exWorld True True [entryA] exClock (blueMarker ''Operational'')) (\<lambda>k. None))) =
      [lbracket @ ''undefined'' @ rbracket @ [CHR 0x0A] @ title entryA @ [CHR 0x0A]
          @ fallbackDescription @ [CHR 0x0A] @ link entryA]"
proof -
  have t: "entryType (blueMarker ''Operational'') = Some ''Operational''"
    by (simp add: entryType_def entryTypeBox_def blueMarker_def)
  then have j: "entryTypeJp (blueMarker ''Operational'') = None"
    by (simp add: entryTypeJp_def)
  have d: "pageDescription (blueMarker ''Operational'') = fallbackDescription"
    by (simp add: pageDescription_def blueMarker_def)
  have m: "message entryA (blueMarker ''Operational'') =
        lbracket @ ''undefined'' @ rbracket @ [CHR 0x0A] @ title entryA @ [CHR 0x0A]
          @ fallbackDescription @ [CHR 0x0A] @ link entryA"
    by (simp add: message_def j d templateText_def)
  have l: "''undefined'' \<noteq> NOTICE" "''undefined'' \<noteq> INCIDENT" "''undefined'' \<noteq> MAINTENANCE"
    by (simp_all add: NOTICE_def INCIDENT_def MAINTENANCE_def)
  have s: "selected (exEnv False) (exWorld True True [entryA] exClock (blueMarker ''Operational''))
      (\<lambda>k. None) [entryA] = [entryA]"
    by (simp add: selected_def processedEntries_def filterCallback_new relevant_ex keys_ex env_ex)
       (simp add: ex_defs)
  have pm: "pageMessage (exWorld True True [entryA] exClock (blueMarker ''Operational'')) entryA
      = Some (message entryA (blueMarker ''Operational''))"
    by (simp add: pageMessage_def entryDom_def exWorld_def)
  have p: "posted (trace (run (exEnv False)
        (exWorld True True [entryA] exClock (blueMarker ''Operational'')) (\<lambda>k. None))) =
      [message entryA (blueMarker ''Operational'')]"
    by (simp add: posted_run [OF readsFeed_ex] env_ex s pm completionOrder_single List.map_filter_simps)
  from t j m l p show ?thesis by simp
qed

section \<open>The entry of the status page root\<close>

text \<open>
  C5. An entry whose link is exactly the status page root is excluded and adds no key, in
  every feed, for every array and in both modes: the callback returns false and leaves the
  array as it found it; the filter of a feed that has the entry somewhere keeps what it
  keeps of the items before and after it, the items after it starting from the array the
  items before it left; and no run fetches the page of that link, which is the first step
  of every notification.
\<close>

theorem sentinel_link_excluded:
  assumes "link entry = STATUS_PAGE_DOCUMENT_ROOT env"
  shows "filterCallback env t pe entry = (False, pe)
    \<and> feedEntriesToProcess env clock i stored (pre @ entry # post) =
        (fst (feedEntriesToProcess env clock i stored pre)
           @ fst (feedEntriesToProcess env clock (Suc (i + length pre))
                    (snd (feedEntriesToProcess env clock i stored pre)) post),
         snd (feedEntriesToProcess env clock (Suc (i + length pre))
                (snd (feedEntriesToProcess env clock i stored pre)) post))
    \<and> Fetch (link entry) \<notin> set (trace (run env w kvs))"
proof (intro conjI)
  from assms have irr: "\<not> relevant env entry" by (simp add: relevant_def)
  then show "filterCallback env t pe entry = (False, pe)"
    by (rule filterCallback_irrelevant)
  show "feedEntriesToProcess env clock i stored (pre @ entry # post) =
        (fst (feedEntriesToProcess env clock i stored pre)
           @ fst (feedEntriesToProcess env clock (Suc (i + length pre))
                    (snd (feedEntriesToProcess env clock i stored pre)) post),
         snd (feedEntriesToProcess env clock (Suc (i + length pre))
                (snd (feedEntriesToProcess env clock i stored pre)) post))"
    by (simp add: feedEntriesToProcess_append [of _ _ _ _ pre] feedEntriesToProcess_Cons
          filterCallback_irrelevant [OF irr] del: feedEntriesToProcess.simps)
  show "Fetch (link entry) \<notin> set (trace (run env w kvs))"
  proof
    assume "Fetch (link entry) \<in> set (trace (run env w kvs))"
    from Fetch_trace [OF this] obtain items e where
      "e \<in> set (selected env w kvs items)" "link entry = link e" by blast
    then have "relevant env e" "link e = STATUS_PAGE_DOCUMENT_ROOT env"
      using assms by (auto simp: selected_def dest: selected_relevant)
    then show False by (simp add: relevant_def)
  qed
qed

theorem sentinel_link_excluded_witness:
  "link entryRoot = STATUS_PAGE_DOCUMENT_ROOT (exEnv False)
   \<and> filterCallback (exEnv False) (exClock 1) [''42-9000000''] entryRoot = (False, [''42-9000000''])
   \<and> feedEntriesToProcess (exEnv False) exClock 0 [] ([entryA] @ entryRoot # [entryOld]) =
        ([entryA], [''42-9000000'', ''7-1000000''])
   \<and> Fetch (link entryRoot) \<notin> set (trace (run (exEnv False)
        (exWorld True True [entryA, entryRoot, entryOld] exClock noMarker) (\<lambda>k. None)))"
proof -
  have h: "link entryRoot = STATUS_PAGE_DOCUMENT_ROOT (exEnv False)"
    by (simp add: ex_defs)
  have a: "feedEntriesToProcess (exEnv False) exClock 0 [] [entryA] = ([entryA], [''42-9000000''])"
    by (simp add: filterCallback_new relevant_ex keys_ex env_ex) (simp add: ex_defs)
  have b: "feedEntriesToProcess (exEnv False) exClock (Suc (Suc 0)) [''42-9000000''] [entryOld] =
      ([], [''42-9000000'', ''7-1000000''])"
    by (simp add: filterCallback_new relevant_ex keys_ex env_ex) (simp add: ex_defs)
  from sentinel_link_excluded [OF h, where t = "exClock 1" and pe = "[''42-9000000'']"
      and clock = exClock and i = 0 and stored = "[]" and pre = "[entryA]" and post = "[entryOld]"
      and w = "exWorld True True [entryA, entryRoot, entryOld] exClock noMarker"
      and kvs = "\<lambda>k. None"]
    h a b
  show ?thesis by simp
qed

section \<open>Entries older than one hour\<close>

text \<open>
  C6, as the code has it. Let \<open>TEST_MODE\<close> be off. For an entry of the feed that passes
  the link and title guards, whose key is not in the array when its call begins, and whose
  \<open>published\<close> is less than the clock reading minus one hour: the callback returns false
  after appending the key; the key is in the list whose comma-joined text the run stores;
  and the entry is not notified: the selection is that of the items before it followed by
  that of the items after it, no selected entry has its key, the notes created in the run
  are the notes of that selection, and when no other item of the feed has its link, its
  page is not even fetched.
\<close>

theorem too_old_marked_not_notified:
  assumes "\<not> TEST_MODE env"
    and "readsFeed env w (pre @ entry # post)"
    and "relevant env entry"
    and "entryUniqueKey entry \<notin> set (newProcessedEntries env w kvs pre)"
    and "numberLess (published entry) (now w (length pre) - 3600000)"
  shows "filterCallback env (now w (length pre)) (newProcessedEntries env w kvs pre) entry =
           (False, newProcessedEntries env w kvs pre @ [entryUniqueKey entry])
    \<and> selected env w kvs (pre @ entry # post) =
        selected env w kvs pre
          @ fst (feedEntriesToProcess env (now w) (Suc (length pre))
                   (newProcessedEntries env w kvs pre @ [entryUniqueKey entry]) post)
    \<and> entryUniqueKey entry \<in> set (newProcessedEntries env w kvs (pre @ entry # post))
    \<and> store (run env w kvs) (PROCESSED_ENTRIES_KV_KEY env) =
        Some (join_str '','' (newProcessedEntries env w kvs (pre @ entry # post)))
    \<and> (\<forall>e\<in>set (selected env w kvs (pre @ entry # post)).
          entryUniqueKey e \<noteq> entryUniqueKey entry)
    \<and> mset (posted (trace (run env w kvs))) =
        mset (List.map_filter (pageMessage w)
                (selected env w kvs pre
                   @ fst (feedEntriesToProcess env (now w) (Suc (length pre))
                            (newProcessedEntries env w kvs pre @ [entryUniqueKey entry]) post)))
    \<and> ((\<forall>e\<in>set (pre @ post). link e \<noteq> link entry) \<longrightarrow>
          Fetch (link entry) \<notin> set (trace (run env w kvs)))"
proof -
  let ?pe1 = "newProcessedEntries env w kvs pre"
  let ?rest = "fst (feedEntriesToProcess env (now w) (Suc (length pre))
                   (?pe1 @ [entryUniqueKey entry]) post)"
  have cb: "filterCallback env (now w (length pre)) ?pe1 entry =
      (False, ?pe1 @ [entryUniqueKey entry])"
    using assms(1,3,4,5) by (simp add: filterCallback_new)
  have sel: "selected env w kvs (pre @ entry # post) = selected env w kvs pre @ ?rest"
    using cb
    by (simp add: selected_def newProcessedEntries_def feedEntriesToProcess_append [of _ _ _ _ pre]
          feedEntriesToProcess_Cons del: feedEntriesToProcess.simps)
  have new: "newProcessedEntries env w kvs (pre @ entry # post) =
      snd (feedEntriesToProcess env (now w) (Suc (length pre))
             (?pe1 @ [entryUniqueKey entry]) post)"
    using cb
    by (simp add: newProcessedEntries_def feedEntriesToProcess_append [of _ _ _ _ pre]
          feedEntriesToProcess_Cons del: feedEntriesToProcess.simps)
  from snd_feedEntriesToProcess_added
    [of env "now w" "Suc (length pre)" "?pe1 @ [entryUniqueKey entry]" post]
  obtain added where
    "newProcessedEntries env w kvs (pre @ entry # post) = (?pe1 @ [entryUniqueKey entry]) @ added"
    unfolding new by blast
  then have mem: "entryUniqueKey entry \<in> set (newProcessedEntries env w kvs (pre @ entry # post))"
    and ne: "newProcessedEntries env w kvs (pre @ entry # post) \<noteq> []"
    by simp_all
  have st: "store (run env w kvs) (PROCESSED_ENTRIES_KV_KEY env) =
        Some (join_str '','' (newProcessedEntries env w kvs (pre @ entry # post)))"
    using ne by (simp add: run_readsFeed [OF assms(2)] store_saveProcessedEntries)
  have po: "mset (posted (trace (run env w kvs))) =
      mset (List.map_filter (pageMessage w) (selected env w kvs pre @ ?rest))"
    using assms(1) by (simp add: mset_posted_run [OF assms(2)] sel)
  have fe: "Fetch (link entry) \<notin> set (trace (run env w kvs))"
    if other: "\<forall>e\<in>set (pre @ post). link e \<noteq> link entry"
  proof
    assume "Fetch (link entry) \<in> set (trace (run env w kvs))"
    from Fetch_run [OF assms(2) this] obtain e where
      e: "e \<in> set (selected env w kvs (pre @ entry # post))" "link entry = link e"
      by blast
    have "set (selected env w kvs pre) \<subseteq> set pre" "set ?rest \<subseteq> set post"
      by (simp_all add: selected_def set_fst_feedEntriesToProcess)
    with e(1) have "e \<in> set (pre @ post)" unfolding sel by auto
    with other e(2) show False by auto
  qed
  have nk: "entryUniqueKey e \<noteq> entryUniqueKey entry"
    if e: "e \<in> set (selected env w kvs (pre @ entry # post))" for e
  proof -
    from e consider (before) "e \<in> set (selected env w kvs pre)" | (after) "e \<in> set ?rest"
      unfolding sel by auto
    then show ?thesis
    proof cases
      case before
      with assms(1) have "entryUniqueKey e \<in> set ?pe1"
        unfolding selected_def newProcessedEntries_def by (rule selected_key_pushed)
      with assms(4) show ?thesis by auto
    next
      case after
      from selected_key_new [OF assms(1) after] show ?thesis by simp
    qed
  qed
  from cb sel mem st nk po fe show ?thesis by blast
qed

theorem too_old_marked_not_notified_witness:
  "\<not> TEST_MODE (exEnv False)
   \<and> readsFeed (exEnv False) (exWorld True True [entryA, entryOld] exClock noMarker)
        [entryA, entryOld]
   \<and> relevant (exEnv False) entryOld
   \<and> entryUniqueKey entryOld \<notin> set (newProcessedEntries (exEnv False)
        (exWorld True True [entryA, entryOld] exClock noMarker) (\<lambda>k. None) [entryA])
   \<and> numberLess (published entryOld)
        (now (exWorld True True [entryA, entryOld] exClock noMarker) (length [entryA]) - 3600000)
   \<and> link entryA \<noteq> link entryOld
   \<and> selected (exEnv False) (exWorld True True [entryA, entryOld] exClock noMarker)
        (\<lambda>k. None) [entryA, entryOld] = [entryA]
   \<and> entryUniqueKey entryA \<noteq> entryUniqueKey entryOld
   \<and> entryUniqueKey entryOld \<in> set (newProcessedEntries (exEnv False)
        (exWorld True True [entryA, entryOld] exClock noMarker) (\<lambda>k. None) [entryA, entryOld])
   \<and> store (run (exEnv False) (exWorld True True [entryA, entryOld] exClock noMarker)
        (\<lambda>k. None)) (PROCESSED_ENTRIES_KV_KEY (exEnv False)) = Some ''42-9000000,7-1000000''
   \<and> mset (posted (trace (run (exEnv False)
        (exWorld True True [entryA, entryOld] exClock noMarker) (\<lambda>k. None)))) =
      {#message entryA noMarker#}
   \<and> Fetch (link entryOld) \<notin> set (trace (run (exEnv False)
        (exWorld True True [entryA, entryOld] exClock noMarker) (\<lambda>k. None)))"
proof -
  let ?w = "exWorld True True [entryA, entryOld] exClock noMarker"
  have h1: "\<not> TEST_MODE (exEnv False)" by (simp add: exEnv_def)
  have h2: "readsFeed (exEnv False) ?w [entryA, entryOld]" by (rule readsFeed_ex)
  have h3: "relevant (exEnv False) entryOld" by (rule relevant_ex)
  have n: "newProcessedEntries (exEnv False) ?w (\<lambda>k. None) [entryA] = [''42-9000000'']"
    by (simp add: newProcessedEntries_def processedEntries_def filterCallback_new relevant_ex
          keys_ex env_ex)
  have s: "selected (exEnv False) ?w (\<lambda>k. None) [entryA] = [entryA]"
    by (simp add: selected_def processedEntries_def filterCallback_new relevant_ex keys_ex env_ex)
       (simp add: ex_defs)
  have h4: "entryUniqueKey entryOld \<notin> set (newProcessedEntries (exEnv False) ?w (\<lambda>k. None) [entryA])"
    by (simp add: n keys_ex)
  have h5: "numberLess (published entryOld) (now ?w (length [entryA]) - 3600000)"
    by (simp add: ex_defs)
  have h6: "link entryA \<noteq> link entryOld" by (simp add: ex_defs)
  have new: "newProcessedEntries (exEnv False) ?w (\<lambda>k. None) [entryA, entryOld] =
      [''42-9000000'', ''7-1000000'']"
    by (simp add: newProcessedEntries_def processedEntries_def filterCallback_new relevant_ex
          keys_ex env_ex)
  have pm: "pageMessage ?w entryA = Some (message entryA noMarker)"
    by (simp add: pageMessage_def entryDom_def exWorld_def)
  from too_old_marked_not_notified [of "exEnv False" ?w "[entryA]" entryOld "[]" "\<lambda>k. None"]
    h1 h2 h3 h4 h5 h6 s new pm
  show ?thesis by simp
qed

text \<open>
  Under \<open>TEST_MODE\<close> the key is not appended: for an old entry that passes the link and
  title guards and whose key is not stored, the list after the filter is empty and the run
  stores nothing; the entry is selected, and its message is composed and returned.
\<close>

lemma run_Old_test:
  "run (exEnv True) (exWorld True True [entryOld] exClock noMarker) (\<lambda>k. None) =
   \<lparr>outcome = Results [Message (message entryOld noMarker)],
    store = (\<lambda>k. None),
    trace = [Head ''https://mi.example/'', Head ''https://st.example'', KvGet ''pe'',
             ParseFeed ''https://st.example/feed'', KvDelete ''pe'',
             Fetch ''https://st.example/incidents/7'']\<rparr>"
  by (simp add: ex_defs run_defs)

theorem too_old_marked_not_notified_counterexample:
  "relevant (exEnv True) entryOld
   \<and> entryUniqueKey entryOld \<notin> set (processedEntries (\<lambda>k. None) (PROCESSED_ENTRIES_KV_KEY (exEnv True)))
   \<and> numberLess (published entryOld)
        (now (exWorld True True [entryOld] exClock noMarker) 0 - 3600000)
   \<and> selected (exEnv True) (exWorld True True [entryOld] exClock noMarker) (\<lambda>k. None) [entryOld]
       = [entryOld]
   \<and> outcome (run (exEnv True) (exWorld True True [entryOld] exClock noMarker) (\<lambda>k. None))
       = Results [Message (message entryOld noMarker)]
   \<and> newProcessedEntries (exEnv True) (exWorld True True [entryOld] exClock noMarker)
        (\<lambda>k. None) [entryOld] = []
   \<and> store (run (exEnv True) (exWorld True True [entryOld] exClock noMarker) (\<lambda>k. None))
        (PROCESSED_ENTRIES_KV_KEY (exEnv True)) = None"
proof -
  let ?w = "exWorld True True [entryOld] exClock noMarker"
  have f: "feedEntriesToProcess (exEnv True) (now ?w) 0 [] [entryOld] = ([entryOld], [])"
    by (simp add: feedEntriesToProcess_test env_ex relevant_ex del: feedEntriesToProcess.simps)
  have p: "processedEntries (\<lambda>k. None) (PROCESSED_ENTRIES_KV_KEY (exEnv True)) = []"
    by (simp add: processedEntries_def)
  have s: "selected (exEnv True) ?w (\<lambda>k. None) [entryOld] = [entryOld]"
    and n: "newProcessedEntries (exEnv True) ?w (\<lambda>k. None) [entryOld] = []"
    by (simp_all add: selected_def newProcessedEntries_def p f del: feedEntriesToProcess.simps)
  have o: "numberLess (published entryOld) (now ?w 0 - 3600000)"
    by (simp add: ex_defs)
  from s n o p show ?thesis by (simp add: run_Old_test relevant_ex)
qed

section \<open>Persisting and reading the list of keys\<close>

text \<open>
  C7, as the code has it. For a list of one or more keys none of which contains a comma,
  writing the list stores its comma-joined text, and reading the store back gives exactly
  the same keys in the same order. Writing the empty list removes the key from the store,
  and reading gives the empty list.
\<close>

theorem persist_then_read:
  "(ks \<noteq> [] \<and> (\<forall>k\<in>set ks. CHR '','' \<notin> set k) \<longrightarrow>
      fst (saveProcessedEntries key ks kvs) key = Some (join_str '','' ks)
      \<and> processedEntries (fst (saveProcessedEntries key ks kvs)) key = ks)
   \<and> fst (saveProcessedEntries key [] kvs) key = None
   \<and> processedEntries (fst (saveProcessedEntries key [] kvs)) key = []"
  by (simp add: processedEntries_saveProcessedEntries store_saveProcessedEntries)

theorem persist_then_read_witness:
  "[''42-9000000'', ''43-9000001''] \<noteq> []
   \<and> CHR '','' \<notin> set ''42-9000000'' \<and> CHR '','' \<notin> set ''43-9000001''
   \<and> fst (saveProcessedEntries ''pe'' [''42-9000000'', ''43-9000001''] (\<lambda>k. None)) ''pe''
       = Some ''42-9000000,43-9000001''
   \<and> processedEntries
        (fst (saveProcessedEntries ''pe'' [''42-9000000'', ''43-9000001''] (\<lambda>k. None))) ''pe''
       = [''42-9000000'', ''43-9000001'']"
  using persist_then_read [of "[''42-9000000'', ''43-9000001'']" "''pe''" "\<lambda>k. None"]
  by simp

text \<open>
  The key of an entry whose last path segment has a comma is not read back: one key is
  written, two tokens are read.
\<close>

theorem persist_then_read_counterexample:
  "entryUniqueKey (exEntry ''Acme down'' ''https://st.example/incidents/a,b'' 1) = ''a,b-1''
   \<and> processedEntries (fst (saveProcessedEntries ''pe'' [''a,b-1''] (\<lambda>k. None))) ''pe''
       = [''a'', ''b-1'']
   \<and> processedEntries (fst (saveProcessedEntries ''pe'' [''a,b-1''] (\<lambda>k. None))) ''pe''
       \<noteq> [''a,b-1'']"
  by (simp add: exEntry_def entryUniqueKey_def entryId_def integerToString_def digits.simps
        processedEntries_def saveProcessedEntries_def)

section \<open>The availability probes\<close>

text \<open>
  C8. When the probe of the service answers with a response that is not ok, or the probe
  of the service is ok and the probe of the status page answers with a response that is not
  ok, the promise of the run resolves (with \<open>undefined\<close>; it does not reject), the store is
  the one the run started with, and the whole trace consists of the probes issued and one
  log line: the store is not read or written, the feed is not fetched, no page is fetched
  and no note is created.
\<close>

theorem probe_failure_aborts_silently:
  "(fetchHead w (SERVICE_ROOT env) = Some False \<longrightarrow>
      run env w kvs =
        \<lparr>outcome = Undefined, store = kvs,
         trace = [Head (SERVICE_ROOT env), ConsoleLog (SERVICE_NAME env @ couldNotConnect)]\<rparr>)
   \<and> (fetchHead w (SERVICE_ROOT env) = Some True
        \<and> fetchHead w (STATUS_PAGE_HOST env) = Some False \<longrightarrow>
      run env w kvs =
        \<lparr>outcome = Undefined, store = kvs,
         trace = [Head (SERVICE_ROOT env), Head (STATUS_PAGE_HOST env),
                  ConsoleLog (statusPageName @ couldNotConnect)]\<rparr>)"
  by (simp add: run_def)

theorem probe_failure_aborts_silently_witness:
  "fetchHead (exWorld False True [] exClock noMarker) (SERVICE_ROOT (exEnv False)) = Some False
   \<and> run (exEnv False) (exWorld False True [] exClock noMarker) (\<lambda>k. None) =
        \<lparr>outcome = Undefined, store = (\<lambda>k. None),
         trace = [Head ''https://mi.example/'', ConsoleLog (''Acme'' @ couldNotConnect)]\<rparr>
   \<and> fetchHead (exWorld True False [] exClock noMarker) (SERVICE_ROOT (exEnv False)) = Some True
   \<and> fetchHead (exWorld True False [] exClock noMarker) (STATUS_PAGE_HOST (exEnv False)) = Some False
   \<and> run (exEnv False) (exWorld True False [] exClock noMarker) (\<lambda>k. None) =
        \<lparr>outcome = Undefined, store = (\<lambda>k. None),
         trace = [Head ''https://mi.example/'', Head ''https://st.example'',
                  ConsoleLog (statusPageName @ couldNotConnect)]\<rparr>"
  using probe_failure_aborts_silently [of "exWorld False True [] exClock noMarker" "exEnv False" "\<lambda>k. None"]
    probe_failure_aborts_silently [of "exWorld True False [] exClock noMarker" "exEnv False" "\<lambda>k. None"]
  by (simp add: exEnv_def exWorld_def SERVICE_ROOT_def)

section \<open>Duplicate keys within one run\<close>





section \<open>Test mode\<close>

text \<open>
  C10. In a run with \<open>TEST_MODE\<close> on that receives the feed, the selected entries are
  exactly the entries that pass the link and title guards, whatever their age and whatever
  the store holds; the store after the run is the store before it; no note is created; and
  the promise of the run settles as \<open>Promise.all\<close> of the composed messages, so when it
  resolves its results are the messages of the selected entries, in order.
\<close>

theorem test_mode_run:
  assumes "TEST_MODE env" and "readsFeed env w items"
  shows "selected env w kvs items = filter (relevant env) items
    \<and> store (run env w kvs) = kvs
    \<and> posted (trace (run env w kvs)) = []
    \<and> outcome (run env w kvs) =
        promiseAll (map (\<lambda>entry. map_option Message (pageMessage w entry))
                      (filter (relevant env) items))
    \<and> (\<forall>rs. outcome (run env w kvs) = Results rs \<longrightarrow>
          map Some rs = map (\<lambda>entry. map_option Message (pageMessage w entry))
                          (filter (relevant env) items))"
proof -
  have sel: "selected env w kvs items = filter (relevant env) items"
    and new: "newProcessedEntries env w kvs items =
                processedEntries kvs (PROCESSED_ENTRIES_KV_KEY env)"
    using assms(1) by (simp_all add: selected_def newProcessedEntries_def feedEntriesToProcess_test)
  have st: "store (run env w kvs) = kvs"
    by (simp add: run_readsFeed [OF assms(2)] new saveProcessedEntries_unchanged)
  have po: "posted (trace (run env w kvs)) = []"
    using assms(1) by (simp add: posted_run [OF assms(2)])
  have out: "outcome (run env w kvs) =
        promiseAll (map (\<lambda>entry. map_option Message (pageMessage w entry))
                      (filter (relevant env) items))"
    using assms(1) by (simp add: run_readsFeed [OF assms(2)] sel snd_deliver_test)
  from sel st po out show ?thesis
    by (auto dest: promiseAll_Results_map)
qed

theorem test_mode_run_witness:
  "TEST_MODE (exEnv True)
   \<and> readsFeed (exEnv True) (exWorld True True [entryA, entryOld, entryRoot] exClock noMarker)
        [entryA, entryOld, entryRoot]
   \<and> selected (exEnv True) (exWorld True True [entryA, entryOld, entryRoot] exClock noMarker)
        [''pe'' \<mapsto> ''7-1000000''] [entryA, entryOld, entryRoot] = [entryA, entryOld]
   \<and> store (run (exEnv True) (exWorld True True [entryA, entryOld, entryRoot] exClock noMarker)
        [''pe'' \<mapsto> ''7-1000000'']) = [''pe'' \<mapsto> ''7-1000000'']
   \<and> posted (trace (run (exEnv True)
        (exWorld True True [entryA, entryOld, entryRoot] exClock noMarker)
        [''pe'' \<mapsto> ''7-1000000''])) = []
   \<and> outcome (run (exEnv True) (exWorld True True [entryA, entryOld, entryRoot] exClock noMarker)
        [''pe'' \<mapsto> ''7-1000000'']) =
        Results [Message (message entryA noMarker), Message (message entryOld noMarker)]"
proof -
  let ?w = "exWorld True True [entryA, entryOld, entryRoot] exClock noMarker"
  have h1: "TEST_MODE (exEnv True)" by (simp add: exEnv_def)
  have h2: "readsFeed (exEnv True) ?w [entryA, entryOld, entryRoot]" by (rule readsFeed_ex)
  have pm: "pageMessage ?w e = Some (message e noMarker)" for e
    by (simp add: pageMessage_def entryDom_def exWorld_def)
  from test_mode_run [OF h1 h2, of "[''pe'' \<mapsto> ''7-1000000'']"] h1 h2
  show ?thesis by (simp add: relevant_ex pm promiseAll_def)
qed

end
